theory Spec2Isabelle
  imports
    Complex_Main
    "HOL-Library.Multiset"
    "HOL-Library.Char_ord"
    "HOL-Library.List_Lexorder"
    "HOL-Library.Product_Lexorder"
    "HOL-Library.Monad_Syntax"
begin

section \<open>Data model\<close>

text \<open>
  The aggregator of \<^verbatim>\<open>aggregate_stock_data.py\<close> reads a price table and a headline
  table, builds a gap-free daily calendar with forward-filled prices, buckets the headlines
  by UTC calendar date and writes one JSON document.

  A calendar date is the number of days since 1970-01-01 (a pandas \<^verbatim>\<open>Timestamp\<close> produced by
  the format \<^verbatim>\<open>%Y-%m-%d\<close> is always midnight of that day, and \<^verbatim>\<open>freq='D'\<close> steps by whole
  days). A headline instant is a number of nanoseconds since the epoch, in UTC, as pandas
  stores it. A table cell is either a value or missing (\<^verbatim>\<open>NaN\<close>, \<^verbatim>\<open>NaT\<close>).
  The finite float values of the price columns are carried as rationals: the program only
  copies them, it never computes with them. Volumes are integers; the detour through
  \<^verbatim>\<open>float64\<close> that a column takes once reindexing has put a missing cell into it is exact
  below \<open>2^53\<close> and is left out.
\<close>

type_synonym day = int
type_synonym timestamp = int

datatype 'a cell = NaN | Val 'a

record market_cells =
  high :: "rat cell"
  low :: "rat cell"
  close :: "rat cell"
  volume :: "int cell"

record price_row = market_cells +
  date :: "string cell"

record news_row =
  Date :: "string cell"
  Article_title :: "string cell"

record headline_entry =
  time :: string
  headline :: "string cell"

record market_data =
  md_high :: "rat cell"
  md_low :: "rat cell"
  md_close :: "rat cell"
  md_volume :: int

record day_record =
  rec_date :: string
  rec_market_data :: market_data
  news_headlines :: "headline_entry list"

datatype pyerror =
  FileNotFoundError | KeyError | ValueError | FileExistsError | IsADirectoryError

text \<open>
  The three calls of \<^verbatim>\<open>pd.to_datetime\<close> are library code. They are parameters of the model:
  the strict parse of a price date (\<^verbatim>\<open>format='%Y-%m-%d'\<close>), the primary parse of a headline
  timestamp (\<^verbatim>\<open>format='%Y-%m-%d %H:%M:%S %Z', utc=True\<close>), both applied value by value, and
  the generic parse (\<^verbatim>\<open>utc=True\<close>, no format), which receives the whole sub-column of rows
  the primary parse rejected and may decide on a row in view of the others. With
  \<^verbatim>\<open>errors='coerce'\<close> each of them yields \<^verbatim>\<open>NaT\<close>, here \<open>None\<close>, where it fails.
  The library resolves some strings against the clock (\<^verbatim>\<open>now\<close>, \<^verbatim>\<open>today\<close>, a time with no
  date), so a value of this record is the library as it answers during one run; two runs
  have one each.
\<close>

record pandas =
  to_datetime_ymd :: "string \<Rightarrow> day option"
  to_datetime_primary :: "string \<Rightarrow> timestamp option"
  to_datetime_generic :: "string cell list \<Rightarrow> timestamp option list"

section \<open>Calendar arithmetic and formatting\<close>

text \<open>
  \<^verbatim>\<open>strftime('%Y-%m-%d')\<close> and \<^verbatim>\<open>strftime('%H:%M:%S')\<close>: the proleptic Gregorian date of a day
  number, zero-padded decimal fields. The days since 0000-03-01 are split into eras of 400
  years, centuries, cycles of four years and years of 365 days, the leap day last in each.
\<close>

definition civil_from_days :: "day \<Rightarrow> int \<times> int \<times> int" where
  "civil_from_days z0 =
     (let z = z0 + 719468;
          era = z div 146097;
          doe = z mod 146097;
          c = min 3 (doe div 36524);
          r = doe - 36524 * c;
          q = min 24 (r div 1461);
          t = r - 1461 * q;
          a = min 3 (t div 365);
          doy = t - 365 * a;
          yoe = 100 * c + 4 * q + a;
          mp = (5 * doy + 2) div 153;
          d = doy - (153 * mp + 2) div 5 + 1;
          m = (if mp < 10 then mp + 3 else mp - 9);
          y = yoe + era * 400 + (if m \<le> 2 then 1 else 0)
      in (y, m, d))"

definition days_from_civil :: "int \<Rightarrow> int \<Rightarrow> int \<Rightarrow> day" where
  "days_from_civil y0 m d =
     (let y = (if m \<le> 2 then y0 - 1 else y0);
          era = y div 400;
          yoe = y mod 400;
          mp = (if m > 2 then m - 3 else m + 9);
          doy = (153 * mp + 2) div 5 + d - 1;
          doe = yoe * 365 + yoe div 4 - yoe div 100 + doy
      in era * 146097 + doe - 719468)"

definition digit_char :: "nat \<Rightarrow> char" where
  "digit_char n = ''0123456789'' ! (n mod 10)"

definition zero_pad2 :: "nat \<Rightarrow> string" where
  "zero_pad2 n = [digit_char (n div 10), digit_char n]"

definition zero_pad4 :: "nat \<Rightarrow> string" where
  "zero_pad4 n =
     [digit_char (n div 1000), digit_char (n div 100), digit_char (n div 10), digit_char n]"

definition strftime_ymd :: "day \<Rightarrow> string" where
  "strftime_ymd z =
     (case civil_from_days z of
        (y, m, d) \<Rightarrow> zero_pad4 (nat y) @ ''-'' @ zero_pad2 (nat m) @ ''-'' @ zero_pad2 (nat d))"

definition ns_per_second :: int where
  "ns_per_second = 1000000000"

definition ns_per_day :: int where
  "ns_per_day = 86400 * ns_per_second"

text \<open>A pandas \<^verbatim>\<open>Timestamp\<close> is a signed 64-bit count of nanoseconds; a parse that would
  leave this range fails.\<close>

definition in_bounds :: "int \<Rightarrow> bool" where
  "in_bounds ns = (- (2 ^ 63) < ns \<and> ns < 2 ^ 63)"

definition date_only :: "timestamp \<Rightarrow> day" where
  "date_only ts = ts div ns_per_day"

definition strftime_hms :: "timestamp \<Rightarrow> string" where
  "strftime_hms ts =
     (let s = (ts mod ns_per_day) div ns_per_second
      in zero_pad2 (nat (s div 3600)) @ '':'' @ zero_pad2 (nat ((s div 60) mod 60))
           @ '':'' @ zero_pad2 (nat (s mod 60)))"

section \<open>Prices: parse, sort, full calendar, forward fill\<close>

text \<open>Line 29: \<^verbatim>\<open>pd.to_datetime(price_df['date'], format='%Y-%m-%d', errors='coerce')\<close>.
  A missing cell stays missing.\<close>

definition to_datetime_cell :: "(string \<Rightarrow> 'a option) \<Rightarrow> string cell \<Rightarrow> 'a option" where
  "to_datetime_cell f c = (case c of NaN \<Rightarrow> None | Val s \<Rightarrow> f s)"

definition cells_of :: "price_row \<Rightarrow> market_cells" where
  "cells_of r = \<lparr>high = high r, low = low r, close = close r, volume = volume r\<rparr>"

definition price_dates :: "pandas \<Rightarrow> price_row list \<Rightarrow> day option list" where
  "price_dates pd rows = map (\<lambda>r. to_datetime_cell (to_datetime_ymd pd) (date r)) rows"

text \<open>A price row whose date parses.\<close>

definition has_date :: "pandas \<Rightarrow> price_row \<Rightarrow> bool" where
  "has_date pd r = (to_datetime_cell (to_datetime_ymd pd) (date r) \<noteq> None)"

definition parse_price_dates :: "pandas \<Rightarrow> price_row list \<Rightarrow> (day option \<times> market_cells) list" where
  "parse_price_dates pd rows =
     map (\<lambda>r. (to_datetime_cell (to_datetime_ymd pd) (date r), cells_of r)) rows"

text \<open>Line 30: \<^verbatim>\<open>sort_values('date')\<close>, ascending, \<^verbatim>\<open>NaT\<close> last.\<close>

fun date_le :: "day option \<Rightarrow> day option \<Rightarrow> bool" where
  "date_le _ None = True"
| "date_le None (Some _) = False"
| "date_le (Some a) (Some b) = (a \<le> b)"

fun insort_date :: "day option \<times> 'a \<Rightarrow> (day option \<times> 'a) list \<Rightarrow> (day option \<times> 'a) list" where
  "insort_date x [] = [x]"
| "insort_date x (y # ys) =
     (if date_le (fst x) (fst y) then x # y # ys else y # insort_date x ys)"

definition sort_values_date :: "(day option \<times> 'a) list \<Rightarrow> (day option \<times> 'a) list" where
  "sort_values_date rows = foldr insort_date rows []"

text \<open>Line 33: \<^verbatim>\<open>min()\<close> and \<^verbatim>\<open>max()\<close> skip \<^verbatim>\<open>NaT\<close> and are \<^verbatim>\<open>NaT\<close> on a column with no valid
  date; \<^verbatim>\<open>pd.date_range\<close> raises \<^verbatim>\<open>ValueError\<close> on a \<^verbatim>\<open>NaT\<close> bound and otherwise lists every
  day from start to end.\<close>

fun dropna_dates :: "day option list \<Rightarrow> day list" where
  "dropna_dates [] = []"
| "dropna_dates (None # xs) = dropna_dates xs"
| "dropna_dates (Some d # xs) = d # dropna_dates xs"

definition series_min :: "day option list \<Rightarrow> day option" where
  "series_min col = (case dropna_dates col of [] \<Rightarrow> None | d # ds \<Rightarrow> Some (fold min ds d))"

definition series_max :: "day option list \<Rightarrow> day option" where
  "series_max col = (case dropna_dates col of [] \<Rightarrow> None | d # ds \<Rightarrow> Some (fold max ds d))"

fun date_range :: "day option \<Rightarrow> day option \<Rightarrow> pyerror + day list" where
  "date_range (Some s) (Some e) = Inr [s..e]"
| "date_range _ _ = Inl ValueError"

text \<open>Lines 35-36: \<^verbatim>\<open>set_index('date').reindex(full_range)\<close>. Reindexing looks every target
  label up in the index and gives an all-\<^verbatim>\<open>NaN\<close> row where it is absent. pandas refuses to
  reindex an index with a repeated label (\<^verbatim>\<open>ValueError\<close>: cannot reindex on an axis with
  duplicate labels), two \<^verbatim>\<open>NaT\<close> labels included, unless the index already equals the
  target.\<close>

definition nan_row :: market_cells where
  "nan_row = \<lparr>high = NaN, low = NaN, close = NaN, volume = NaN\<rparr>"

definition reindex ::
  "(day option \<times> market_cells) list \<Rightarrow> day list \<Rightarrow> pyerror + (day \<times> market_cells) list" where
  "reindex df target =
     (if map fst df \<noteq> map Some target \<and> \<not> distinct (map fst df) then Inl ValueError
      else Inr (map (\<lambda>d. (d, case map_of df (Some d) of None \<Rightarrow> nan_row | Some c \<Rightarrow> c)) target))"

text \<open>Line 38: \<^verbatim>\<open>ffill()\<close> replaces, column by column, a missing cell by the last value
  above it; a cell with nothing above it stays missing.\<close>

fun ffill_cell :: "'a cell \<Rightarrow> 'a cell \<Rightarrow> 'a cell" where
  "ffill_cell prev NaN = prev"
| "ffill_cell prev (Val v) = Val v"

definition ffill_row :: "market_cells \<Rightarrow> market_cells \<Rightarrow> market_cells" where
  "ffill_row prev c =
     \<lparr>high = ffill_cell (high prev) (high c), low = ffill_cell (low prev) (low c),
      close = ffill_cell (close prev) (close c), volume = ffill_cell (volume prev) (volume c)\<rparr>"

fun ffill_from :: "market_cells \<Rightarrow> (day \<times> market_cells) list \<Rightarrow> (day \<times> market_cells) list" where
  "ffill_from prev [] = []"
| "ffill_from prev ((d, c) # rows) = (d, ffill_row prev c) # ffill_from (ffill_row prev c) rows"

definition ffill :: "(day \<times> market_cells) list \<Rightarrow> (day \<times> market_cells) list" where
  "ffill rows = ffill_from nan_row rows"

text \<open>The row of the price frame labelled with a day, all-\<^verbatim>\<open>NaN\<close> when no row has that
  label: what reindexing puts at the day.\<close>

definition raw_cells :: "pandas \<Rightarrow> price_row list \<Rightarrow> day \<Rightarrow> market_cells" where
  "raw_cells pd rows d =
     (case map_of (parse_price_dates pd rows) (Some d) of None \<Rightarrow> nan_row | Some c \<Rightarrow> c)"

text \<open>Lines 29-40 together: the daily price frame, or the error raised on the way.\<close>

definition price_daily :: "pandas \<Rightarrow> price_row list \<Rightarrow> pyerror + (day \<times> market_cells) list" where
  "price_daily pd rows =
     (let price_df = sort_values_date (parse_price_dates pd rows) in
      case date_range (series_min (map fst price_df)) (series_max (map fst price_df)) of
        Inl e \<Rightarrow> Inl e
      | Inr full_range \<Rightarrow>
          (case reindex price_df full_range of
             Inl e \<Rightarrow> Inl e
           | Inr daily \<Rightarrow> Inr (ffill daily)))"

section \<open>Headlines: parse with fallback, split, sort, group\<close>

text \<open>Lines 43-48. The primary parse runs over the whole \<^verbatim>\<open>Date\<close> column; where it gave
  \<^verbatim>\<open>NaT\<close> the generic parse of exactly those rows is assigned, row by row in their order
  (\<^verbatim>\<open>parsed.loc[fallback_mask] = ...\<close> aligns on the row labels, and a label with no value
  assigned keeps \<^verbatim>\<open>NaT\<close>); rows still \<^verbatim>\<open>NaT\<close> are dropped.\<close>

fun loc_assign :: "timestamp option list \<Rightarrow> timestamp option list \<Rightarrow> timestamp option list" where
  "loc_assign [] vs = []"
| "loc_assign (Some t # ps) vs = Some t # loc_assign ps vs"
| "loc_assign (None # ps) [] = None # loc_assign ps []"
| "loc_assign (None # ps) (v # vs) = v # loc_assign ps vs"

definition fallback_rows :: "string cell list \<Rightarrow> timestamp option list \<Rightarrow> string cell list" where
  "fallback_rows col parsed = map fst (filter (\<lambda>(c, p). p = None) (zip col parsed))"

definition parse_news_dates :: "pandas \<Rightarrow> string cell list \<Rightarrow> timestamp option list" where
  "parse_news_dates pd col =
     (let parsed = map (to_datetime_cell (to_datetime_primary pd)) col in
      if list_ex (\<lambda>p. p = None) parsed
      then loc_assign parsed (to_datetime_generic pd (fallback_rows col parsed))
      else parsed)"

fun dropna_news :: "(timestamp option \<times> news_row) list \<Rightarrow> (timestamp \<times> news_row) list" where
  "dropna_news [] = []"
| "dropna_news ((None, r) # rows) = dropna_news rows"
| "dropna_news ((Some t, r) # rows) = (t, r) # dropna_news rows"

definition surviving_news :: "pandas \<Rightarrow> news_row list \<Rightarrow> (timestamp \<times> news_row) list" where
  "surviving_news pd news = dropna_news (zip (parse_news_dates pd (map Date news)) news)"

text \<open>Lines 52-56: the columns \<^verbatim>\<open>date_only\<close>, \<^verbatim>\<open>time_str\<close>, \<^verbatim>\<open>Article_title\<close>, sorted by
  \<^verbatim>\<open>(date_only, time_str)\<close>; the time strings compare as Python strings do, character by
  character.\<close>

definition news_columns :: "(timestamp \<times> news_row) list \<Rightarrow> (day \<times> string \<times> string cell) list" where
  "news_columns rows = map (\<lambda>(t, r). (date_only t, strftime_hms t, Article_title r)) rows"

definition sort_values_news ::
  "(day \<times> string \<times> string cell) list \<Rightarrow> (day \<times> string \<times> string cell) list" where
  "sort_values_news rows = sort_key (\<lambda>(d, t, h). (d, t)) rows"

text \<open>Lines 58-62: \<^verbatim>\<open>groupby('date_only', sort=True)\<close> makes one group per date that occurs,
  each holding its rows in frame order, and the dictionary maps the date to the list of
  \<^verbatim>\<open>{'time', 'headline'}\<close> entries of the group.\<close>

definition group_entries :: "(day \<times> string \<times> string cell) list \<Rightarrow> day \<Rightarrow> headline_entry list" where
  "group_entries rows d =
     map (\<lambda>(d', t, h). \<lparr>time = t, headline = h\<rparr>) (filter (\<lambda>r. fst r = d) rows)"

definition groupby_date ::
  "(day \<times> string \<times> string cell) list \<Rightarrow> (day \<times> headline_entry list) list" where
  "groupby_date rows = map (\<lambda>d. (d, group_entries rows d)) (sort (remdups (map fst rows)))"

definition news_by_date :: "pandas \<Rightarrow> news_row list \<Rightarrow> (day \<times> headline_entry list) list" where
  "news_by_date pd news =
     groupby_date (sort_values_news (news_columns (surviving_news pd news)))"

definition dict_get :: "(day \<times> headline_entry list) list \<Rightarrow> day \<Rightarrow> headline_entry list" where
  "dict_get m k = (case map_of m k of None \<Rightarrow> [] | Some v \<Rightarrow> v)"

section \<open>Join and output\<close>

text \<open>Lines 65-83: one record per row of the daily frame. \<^verbatim>\<open>float\<close> keeps a missing price
  missing; \<^verbatim>\<open>int\<close> of a missing volume raises \<^verbatim>\<open>ValueError\<close>, at the first such row.\<close>

fun iterrows_history ::
  "(day \<times> headline_entry list) list \<Rightarrow> (day \<times> market_cells) list \<Rightarrow> pyerror + day_record list" where
  "iterrows_history nbd [] = Inr []"
| "iterrows_history nbd ((d, c) # rows) =
     (case volume c of
        NaN \<Rightarrow> Inl ValueError
      | Val v \<Rightarrow>
          (case iterrows_history nbd rows of
             Inl e \<Rightarrow> Inl e
           | Inr history \<Rightarrow>
               Inr (\<lparr>rec_date = strftime_ymd d,
                     rec_market_data =
                       \<lparr>md_high = high c, md_low = low c, md_close = close c, md_volume = v\<rparr>,
                     news_headlines = dict_get nbd d\<rparr> # history)))"

definition build_history :: "pandas \<Rightarrow> price_row list \<Rightarrow> news_row list \<Rightarrow> pyerror + day_record list" where
  "build_history pd prices news =
     (case price_daily pd prices of
        Inl e \<Rightarrow> Inl e
      | Inr daily \<Rightarrow> iterrows_history (news_by_date pd news) daily)"

section \<open>Files\<close>

text \<open>
  A file is what \<^verbatim>\<open>pd.read_csv\<close> makes of it (a price table, a headline table) or the
  document \<^verbatim>\<open>json.dump\<close> wrote: the text of the output is a function of the document
  alone. Reading a path that holds no file raises \<^verbatim>\<open>FileNotFoundError\<close>; taking the
  columns of a file that is not the expected table raises \<^verbatim>\<open>KeyError\<close>.
\<close>

datatype file_content =
  PriceCsv "price_row list" | NewsCsv "news_row list" | JsonDoc "day_record list"

record filesystem =
  files :: "string \<rightharpoonup> file_content"
  dirs :: "string set"

definition read_csv :: "filesystem \<Rightarrow> string \<Rightarrow> pyerror + file_content" where
  "read_csv fs path = (case files fs path of None \<Rightarrow> Inl FileNotFoundError | Some c \<Rightarrow> Inr c)"

fun price_columns :: "file_content \<Rightarrow> pyerror + price_row list" where
  "price_columns (PriceCsv rows) = Inr rows"
| "price_columns _ = Inl KeyError"

fun news_table :: "file_content \<Rightarrow> pyerror + news_row list" where
  "news_table (NewsCsv rows) = Inr rows"
| "news_table _ = Inl KeyError"

text \<open>\<^verbatim>\<open>os.path.dirname\<close>: the part before the last slash, trailing slashes stripped unless
  it consists of slashes only.\<close>

definition rstrip_slash :: "string \<Rightarrow> string" where
  "rstrip_slash s = rev (dropWhile (\<lambda>c. c = CHR ''/'') (rev s))"

definition dirname :: "string \<Rightarrow> string" where
  "dirname p =
     (let head = rev (dropWhile (\<lambda>c. c \<noteq> CHR ''/'') (rev p))
      in if rstrip_slash head = [] then head else rstrip_slash head)"

text \<open>\<^verbatim>\<open>os.makedirs(out_dir, exist_ok=True)\<close> fails when the path is an existing file;
  \<^verbatim>\<open>open(out_json, 'w')\<close> fails on a directory and otherwise replaces the file.\<close>

definition makedirs :: "filesystem \<Rightarrow> string \<Rightarrow> pyerror + filesystem" where
  "makedirs fs d =
     (if files fs d \<noteq> None then Inl FileExistsError else Inr (fs\<lparr>dirs := insert d (dirs fs)\<rparr>))"

definition write_json :: "filesystem \<Rightarrow> string \<Rightarrow> day_record list \<Rightarrow> pyerror + filesystem" where
  "write_json fs path history =
     (if path \<in> dirs fs then Inl IsADirectoryError
      else Inr (fs\<lparr>files := (files fs)(path \<mapsto> JsonDoc history)\<rparr>))"

text \<open>Lines 19-22: \<^verbatim>\<open>str(symbol).upper()\<close> and \<^verbatim>\<open>path or default\<close> (an empty string counts
  as absent).\<close>

definition upper_char :: "char \<Rightarrow> char" where
  "upper_char c =
     (case map_of (zip ''abcdefghijklmnopqrstuvwxyz'' ''ABCDEFGHIJKLMNOPQRSTUVWXYZ'') c of
        None \<Rightarrow> c | Some u \<Rightarrow> u)"

definition upper :: "string \<Rightarrow> string" where
  "upper s = map upper_char s"

definition or_default :: "string option \<Rightarrow> string \<Rightarrow> string" where
  "or_default arg dflt = (case arg of None \<Rightarrow> dflt | Some s \<Rightarrow> if s = [] then dflt else s)"

text \<open>Lines 85-91, after the history is built.\<close>

definition write_output :: "filesystem \<Rightarrow> string \<Rightarrow> day_record list \<Rightarrow> filesystem \<times> pyerror option" where
  "write_output fs out_json history =
     (let out_dir = dirname out_json in
      case (if out_dir \<noteq> [] then makedirs fs out_dir else Inr fs) of
        Inl e \<Rightarrow> (fs, Some e)
      | Inr fs1 \<Rightarrow>
          (case write_json fs1 out_json history of
             Inl e \<Rightarrow> (fs1, Some e)
           | Inr fs2 \<Rightarrow> (fs2, None)))"

definition price_path :: "string \<Rightarrow> string option \<Rightarrow> string" where
  "price_path symbol price_csv =
     or_default price_csv (''stock_price_history/'' @ upper symbol @ ''_price.csv'')"

definition news_path :: "string \<Rightarrow> string option \<Rightarrow> string" where
  "news_path symbol news_csv =
     or_default news_csv (''news_headlines/'' @ upper symbol @ ''_headlines.csv'')"

definition out_path :: "string \<Rightarrow> string option \<Rightarrow> string" where
  "out_path symbol out_json =
     or_default out_json (''aggregated_data/'' @ upper symbol @ ''_aggregated.json'')"

text \<open>The whole of \<^verbatim>\<open>aggregate_for_symbol\<close>: the file system after the call, and the
  exception it raised, if any. Both files are read first; the price columns are taken and
  processed before the headline columns are touched.\<close>

definition aggregate_for_symbol ::
  "pandas \<Rightarrow> filesystem \<Rightarrow> string \<Rightarrow> string option \<Rightarrow> string option \<Rightarrow> string option
     \<Rightarrow> filesystem \<times> pyerror option" where
  "aggregate_for_symbol pd fs symbol price_csv news_csv out_json =
     (case read_csv fs (price_path symbol price_csv) of
        Inl e \<Rightarrow> (fs, Some e)
      | Inr price_file \<Rightarrow>
     (case read_csv fs (news_path symbol news_csv) of
        Inl e \<Rightarrow> (fs, Some e)
      | Inr news_file \<Rightarrow>
     (case price_columns price_file of
        Inl e \<Rightarrow> (fs, Some e)
      | Inr prices \<Rightarrow>
     (case price_daily pd prices of
        Inl e \<Rightarrow> (fs, Some e)
      | Inr daily \<Rightarrow>
     (case news_table news_file of
        Inl e \<Rightarrow> (fs, Some e)
      | Inr news \<Rightarrow>
     (case iterrows_history (news_by_date pd news) daily of
        Inl e \<Rightarrow> (fs, Some e)
      | Inr history \<Rightarrow> write_output fs (out_path symbol out_json) history))))))"

definition aggregate_for_aapl ::
  "pandas \<Rightarrow> filesystem \<Rightarrow> string option \<Rightarrow> string option \<Rightarrow> string option
     \<Rightarrow> filesystem \<times> pyerror option" where
  "aggregate_for_aapl pd fs price_csv news_csv out_json =
     aggregate_for_symbol pd fs ''AAPL'' price_csv news_csv out_json"

section \<open>An instance of the library parsers\<close>

text \<open>
  The theorems below hold for every choice of the three parsers. To run the model on
  concrete tables, this section gives one: the directives of the two formats as pandas'
  \<^verbatim>\<open>strptime\<close> matches them (a four-digit year, one- or two-digit fields within their
  ranges, \<^verbatim>\<open>\s+\<close> for a blank of the format, the whole string consumed), a zone name looked
  up in a table of zones with a fixed offset from UTC (in seconds, east positive), the
  bounds of a 64-bit nanosecond \<^verbatim>\<open>Timestamp\<close>, and for the generic parse a reader of
  \<^verbatim>\<open>YYYY-MM-DD HH:MM:SS\<close> with no zone, taken as UTC. The instance is narrower than the
  library where that does not matter here: blanks are the ASCII ones, the seconds 60 and
  61 that the directive also matches are rejected, and zones with daylight saving time
  are not in the table.
\<close>

definition digit_val :: "char \<Rightarrow> nat option" where
  "digit_val c = map_of (zip ''0123456789'' [0, 1, 2, 3, 4, 5, 6, 7, 8, 9]) c"

definition is_digit :: "char \<Rightarrow> bool" where
  "is_digit c = (digit_val c \<noteq> None)"

definition nat_of_digits :: "string \<Rightarrow> nat" where
  "nat_of_digits s = fold (\<lambda>c n. 10 * n + (case digit_val c of None \<Rightarrow> 0 | Some v \<Rightarrow> v)) s 0"

definition take_year :: "string \<Rightarrow> (int \<times> string) option" where
  "take_year s =
     (if 4 \<le> length s \<and> list_all is_digit (take 4 s)
      then Some (int (nat_of_digits (take 4 s)), drop 4 s) else None)"

definition take_field :: "nat \<Rightarrow> nat \<Rightarrow> string \<Rightarrow> (int \<times> string) option" where
  "take_field lo hi s =
     (let run = takeWhile is_digit s; n = nat_of_digits run
      in if (length run = 1 \<or> length run = 2) \<and> lo \<le> n \<and> n \<le> hi
         then Some (int n, dropWhile is_digit s) else None)"

fun take_day :: "string \<Rightarrow> (int \<times> string) option" where
  "take_day (c # c' # s) =
     (if c = CHR '' '' then
        (case digit_val c' of
           None \<Rightarrow> None
         | Some v \<Rightarrow> if 1 \<le> v then Some (int v, s) else None)
      else take_field 1 31 (c # c' # s))"
| "take_day s = take_field 1 31 s"

fun expect :: "char \<Rightarrow> string \<Rightarrow> string option" where
  "expect c [] = None"
| "expect c (x # s) = (if x = c then Some s else None)"

definition is_space :: "char \<Rightarrow> bool" where
  "is_space c = (c \<in> set [CHR '' '', CHR 0x09, CHR 0x0A, CHR 0x0B, CHR 0x0C, CHR 0x0D])"

definition skip_space :: "string \<Rightarrow> string option" where
  "skip_space s = (if takeWhile is_space s = [] then None else Some (dropWhile is_space s))"

definition is_leap :: "int \<Rightarrow> bool" where
  "is_leap y = (y mod 4 = 0 \<and> (y mod 100 \<noteq> 0 \<or> y mod 400 = 0))"

definition days_in_month :: "int \<Rightarrow> int \<Rightarrow> int" where
  "days_in_month y m =
     (if m = 2 then (if is_leap y then 29 else 28)
      else if m = 4 \<or> m = 6 \<or> m = 9 \<or> m = 11 then 30 else 31)"

definition strptime_date :: "string \<Rightarrow> (day \<times> string) option" where
  "strptime_date s =
     do {
       (y, s1) \<leftarrow> take_year s;
       s2 \<leftarrow> expect CHR ''-'' s1;
       (m, s3) \<leftarrow> take_field 1 12 s2;
       s4 \<leftarrow> expect CHR ''-'' s3;
       (d, s5) \<leftarrow> take_day s4;
       if d \<le> days_in_month y m then Some (days_from_civil y m d, s5) else None
     }"

definition strptime_ymd :: "string \<Rightarrow> day option" where
  "strptime_ymd s =
     do {
       (z, rest) \<leftarrow> strptime_date s;
       if rest = [] \<and> in_bounds (z * ns_per_day) then Some z else None
     }"

definition strptime_ymd_hms :: "string \<Rightarrow> (int \<times> string) option" where
  "strptime_ymd_hms s =
     do {
       (z, s1) \<leftarrow> strptime_date s;
       s2 \<leftarrow> skip_space s1;
       (h, s3) \<leftarrow> take_field 0 23 s2;
       s4 \<leftarrow> expect CHR '':'' s3;
       (mi, s5) \<leftarrow> take_field 0 59 s4;
       s6 \<leftarrow> expect CHR '':'' s5;
       (sec, s7) \<leftarrow> take_field 0 59 s6;
       Some (z * 86400 + h * 3600 + mi * 60 + sec, s7)
     }"

definition strptime_primary :: "(string \<times> int) list \<Rightarrow> string \<Rightarrow> timestamp option" where
  "strptime_primary tz s =
     do {
       (local, s1) \<leftarrow> strptime_ymd_hms s;
       zone \<leftarrow> skip_space s1;
       utcoffset \<leftarrow> map_of tz zone;
       if in_bounds ((local - utcoffset) * ns_per_second)
       then Some ((local - utcoffset) * ns_per_second) else None
     }"

definition to_datetime_naive :: "string cell list \<Rightarrow> timestamp option list" where
  "to_datetime_naive col =
     map (to_datetime_cell (\<lambda>s.
       do {
         (utc, rest) \<leftarrow> strptime_ymd_hms s;
         if rest = [] \<and> in_bounds (utc * ns_per_second) then Some (utc * ns_per_second) else None
       })) col"

definition pandas_with :: "(string \<times> int) list \<Rightarrow> pandas" where
  "pandas_with tz =
     \<lparr>to_datetime_ymd = strptime_ymd, to_datetime_primary = strptime_primary tz,
      to_datetime_generic = to_datetime_naive\<rparr>"

definition fixed_zones :: "(string \<times> int) list" where
  "fixed_zones = [(''UTC'', 0), (''GMT'', 0), (''EST'', - 18000), (''MST'', - 25200), (''HST'', - 36000)]"

text \<open>The same instance at a given reading of the clock: the generic parse reads
  \<^verbatim>\<open>now\<close> as that instant.\<close>

definition to_datetime_clock :: "timestamp \<Rightarrow> string cell list \<Rightarrow> timestamp option list" where
  "to_datetime_clock clock col =
     map (to_datetime_cell (\<lambda>s.
       if s = ''now'' then Some clock
       else
         do {
           (utc, rest) \<leftarrow> strptime_ymd_hms s;
           if rest = [] \<and> in_bounds (utc * ns_per_second) then Some (utc * ns_per_second)
           else None
         })) col"

definition pandas_at :: "timestamp \<Rightarrow> (string \<times> int) list \<Rightarrow> pandas" where
  "pandas_at clock tz =
     \<lparr>to_datetime_ymd = strptime_ymd, to_datetime_primary = strptime_primary tz,
      to_datetime_generic = to_datetime_clock clock\<rparr>"

section \<open>Example tables\<close>

text \<open>
  Two price rows with a gap day between them, and six headline rows: one in the primary
  format with a zone west of UTC, one with no zone (read by the generic parse only), one
  that no parse reads, two dated after the last price date, and one more in the primary
  format. They are the concrete inputs at which the theorems below are exercised.
\<close>

definition ex_pandas :: pandas where
  "ex_pandas = pandas_with fixed_zones"

definition ex_prices :: "price_row list" where
  "ex_prices =
     [\<lparr>high = Val 10, low = Val 9, close = Val (19 / 2), volume = Val 100,
       date = Val ''2023-01-01''\<rparr>,
      \<lparr>high = Val 12, low = Val 11, close = Val (23 / 2), volume = Val 200,
       date = Val ''2023-01-03''\<rparr>]"

definition ex_news :: "news_row list" where
  "ex_news =
     [\<lparr>Date = Val ''2023-01-02 23:30:00 EST'', Article_title = Val ''Fed minutes due''\<rparr>,
      \<lparr>Date = Val ''2023-01-02 10:00:00'', Article_title = Val ''Markets closed''\<rparr>,
      \<lparr>Date = Val ''yesterday'', Article_title = Val ''Undated note''\<rparr>,
      \<lparr>Date = Val ''2023-02-02 10:00:00 UTC'', Article_title = Val ''Earnings call''\<rparr>,
      \<lparr>Date = Val ''2023-02-03 09:00:00'', Article_title = Val ''Guidance raised''\<rparr>,
      \<lparr>Date = Val ''2023-01-03 01:15:00 UTC'', Article_title = Val ''Asia opens lower''\<rparr>]"

definition ex_history :: "day_record list" where
  "ex_history =
     [\<lparr>rec_date = ''2023-01-01'',
       rec_market_data = \<lparr>md_high = Val 10, md_low = Val 9, md_close = Val (19 / 2), md_volume = 100\<rparr>,
       news_headlines = []\<rparr>,
      \<lparr>rec_date = ''2023-01-02'',
       rec_market_data = \<lparr>md_high = Val 10, md_low = Val 9, md_close = Val (19 / 2), md_volume = 100\<rparr>,
       news_headlines = [\<lparr>time = ''10:00:00'', headline = Val ''Markets closed''\<rparr>]\<rparr>,
      \<lparr>rec_date = ''2023-01-03'',
       rec_market_data = \<lparr>md_high = Val 12, md_low = Val 11, md_close = Val (23 / 2), md_volume = 200\<rparr>,
       news_headlines =
         [\<lparr>time = ''01:15:00'', headline = Val ''Asia opens lower''\<rparr>,
          \<lparr>time = ''04:30:00'', headline = Val ''Fed minutes due''\<rparr>]\<rparr>]"

definition ex_fs :: filesystem where
  "ex_fs =
     \<lparr>files = [''prices.csv'' \<mapsto> PriceCsv ex_prices, ''news.csv'' \<mapsto> NewsCsv ex_news],
      dirs = {}\<rparr>"

definition ex_fs_after :: filesystem where
  "ex_fs_after =
     \<lparr>files = (files ex_fs)(''out/aapl.json'' \<mapsto> JsonDoc ex_history), dirs = {''out''}\<rparr>"

definition ex_fs_with :: "price_row list \<Rightarrow> filesystem" where
  "ex_fs_with prices =
     \<lparr>files = [''prices.csv'' \<mapsto> PriceCsv prices, ''news.csv'' \<mapsto> NewsCsv ex_news],
      dirs = {}\<rparr>"

definition ex_undated_prices :: "price_row list" where
  "ex_undated_prices =
     [\<lparr>high = Val 10, low = Val 9, close = Val (19 / 2), volume = Val 100,
       date = Val ''01/01/2023''\<rparr>,
      \<lparr>high = Val 12, low = Val 11, close = Val (23 / 2), volume = Val 200, date = NaN\<rparr>]"

definition ex_duplicate_prices :: "price_row list" where
  "ex_duplicate_prices =
     ex_prices @
     [\<lparr>high = Val 13, low = Val 12, close = Val (25 / 2), volume = Val 300,
       date = Val ''2023-01-03''\<rparr>]"

definition ex_two_undated_prices :: "price_row list" where
  "ex_two_undated_prices = ex_prices @ ex_undated_prices"

text \<open>A headline table with one row stamped \<^verbatim>\<open>now\<close>, and the document a run writes for it
  when the clock gives the time of day \<open>t\<close> on 2023-01-02.\<close>

definition ex_live_news :: "news_row list" where
  "ex_live_news = [\<lparr>Date = Val ''now'', Article_title = Val ''Live update''\<rparr>]"

definition ex_live_fs :: filesystem where
  "ex_live_fs =
     \<lparr>files = [''prices.csv'' \<mapsto> PriceCsv ex_prices, ''news.csv'' \<mapsto> NewsCsv ex_live_news],
      dirs = {}\<rparr>"

definition ex_live_history :: "string \<Rightarrow> day_record list" where
  "ex_live_history t =
     [\<lparr>rec_date = ''2023-01-01'',
       rec_market_data = \<lparr>md_high = Val 10, md_low = Val 9, md_close = Val (19 / 2), md_volume = 100\<rparr>,
       news_headlines = []\<rparr>,
      \<lparr>rec_date = ''2023-01-02'',
       rec_market_data = \<lparr>md_high = Val 10, md_low = Val 9, md_close = Val (19 / 2), md_volume = 100\<rparr>,
       news_headlines = [\<lparr>time = t, headline = Val ''Live update''\<rparr>]\<rparr>,
      \<lparr>rec_date = ''2023-01-03'',
       rec_market_data = \<lparr>md_high = Val 12, md_low = Val 11, md_close = Val (23 / 2), md_volume = 200\<rparr>,
       news_headlines = []\<rparr>]"

definition ex_live_fs_after :: "string \<Rightarrow> filesystem" where
  "ex_live_fs_after t =
     \<lparr>files = (files ex_live_fs)(''out/aapl.json'' \<mapsto> JsonDoc (ex_live_history t)),
      dirs = {''out''}\<rparr>"

section \<open>Properties of the calendar\<close>

lemma civil_from_days_parts:
  obtains era yoe doy mp where
    "era = (z + 719468) div 146097"
    "0 \<le> yoe" "yoe < 400" "0 \<le> doy" "doy \<le> 365" "0 \<le> mp" "mp \<le> 11"
    "mp = (5 * doy + 2) div 153"
    "(z + 719468) mod 146097 = yoe * 365 + yoe div 4 - yoe div 100 + doy"
    "civil_from_days z =
      (yoe + era * 400 + (if (if mp < 10 then mp + 3 else mp - 9) \<le> 2 then 1 else 0),
       (if mp < 10 then mp + 3 else mp - 9), doy - (153 * mp + 2) div 5 + 1)"
proof -
  define z' where "z' = z + 719468"
  define era where "era = z' div 146097"
  define doe where "doe = z' mod 146097"
  define c where "c = min 3 (doe div 36524)"
  define r where "r = doe - 36524 * c"
  define q where "q = min 24 (r div 1461)"
  define t where "t = r - 1461 * q"
  define a' where "a' = min 3 (t div 365)"
  define doy where "doy = t - 365 * a'"
  define yoe where "yoe = 100 * c + 4 * q + a'"
  define mp where "mp = (5 * doy + 2) div 153"
  have doe: "0 \<le> doe" "doe \<le> 146096" by (simp_all add: doe_def)
  have c: "0 \<le> c" "c \<le> 3" using doe by (simp_all add: c_def pos_imp_zdiv_nonneg_iff)
  have r: "0 \<le> r \<and> r \<le> 36524"
  proof (cases "doe div 36524 \<le> 3")
    case True
    then have "r = doe mod 36524"
      by (simp add: r_def c_def min_def minus_mult_div_eq_mod)
    then show ?thesis by simp
  next
    case False
    then have "c = 3" by (simp add: c_def)
    moreover from False have "146096 \<le> doe" by simp
    ultimately show ?thesis using doe by (simp add: r_def)
  qed
  have q: "0 \<le> q" "q \<le> 24" using r by (simp_all add: q_def pos_imp_zdiv_nonneg_iff)
  have t: "0 \<le> t \<and> t \<le> 1460"
  proof (cases "r div 1461 \<le> 24")
    case True
    then have "t = r mod 1461"
      by (simp add: t_def q_def min_def minus_mult_div_eq_mod)
    then show ?thesis by simp
  next
    case False
    then have "36525 \<le> r" by simp
    with r show ?thesis by simp
  qed
  have a': "0 \<le> a'" "a' \<le> 3" using t by (simp_all add: a'_def pos_imp_zdiv_nonneg_iff)
  have doy: "0 \<le> doy \<and> doy \<le> 365"
  proof (cases "t div 365 \<le> 3")
    case True
    then have "doy = t mod 365"
      by (simp add: doy_def a'_def min_def minus_mult_div_eq_mod)
    then show ?thesis by simp
  next
    case False
    then have "a' = 3" by (simp add: a'_def)
    moreover from False have "1460 \<le> t" by simp
    ultimately show ?thesis using t by (simp add: doy_def)
  qed
  have "(5 * doy + 2) div 153 \<le> 1827 div 153"
    using doy by (intro zdiv_mono1) simp_all
  then have mp: "0 \<le> mp" "mp \<le> 11"
    using doy unfolding mp_def by (simp_all add: pos_imp_zdiv_nonneg_iff)
  have "yoe = 4 * (25 * c + q) + a'" "yoe = 100 * c + (4 * q + a')"
    by (simp_all add: yoe_def)
  then have yoe4: "yoe div 4 = 25 * c + q" and yoe100: "yoe div 100 = c"
    using q a' by (simp_all add: div_pos_pos_trivial)
  have yoe: "0 \<le> yoe" "yoe < 400"
    using c q a' unfolding yoe_def by simp_all
  have eq: "civil_from_days z =
      (yoe + era * 400 + (if (if mp < 10 then mp + 3 else mp - 9) \<le> 2 then 1 else 0),
       (if mp < 10 then mp + 3 else mp - 9), doy - (153 * mp + 2) div 5 + 1)"
    unfolding mp_def yoe_def doy_def a'_def t_def q_def r_def c_def doe_def era_def z'_def
      civil_from_days_def Let_def
    by (rule refl)
  have "yoe * 365 + yoe div 4 - yoe div 100 + doy = doe"
    unfolding yoe4 yoe100 unfolding yoe_def doy_def t_def r_def by simp
  then have "(z + 719468) mod 146097 = yoe * 365 + yoe div 4 - yoe div 100 + doy"
    by (simp add: doe_def z'_def)
  with yoe doy mp eq show ?thesis
    by (intro that [of era yoe doy mp]) (simp_all add: era_def z'_def mp_def)
qed

lemma days_from_civil_civil_from_days:
  assumes "civil_from_days z = (y, m, d)"
  shows "days_from_civil y m d = z"
proof -
  obtain era yoe doy mp where
    era: "era = (z + 719468) div 146097" and
    yoe: "0 \<le> yoe" "yoe < 400" and
    mp: "0 \<le> mp" "mp \<le> 11" and
    doe: "(z + 719468) mod 146097 = yoe * 365 + yoe div 4 - yoe div 100 + doy" and
    eq: "civil_from_days z =
      (yoe + era * 400 + (if (if mp < 10 then mp + 3 else mp - 9) \<le> 2 then 1 else 0),
       (if mp < 10 then mp + 3 else mp - 9), doy - (153 * mp + 2) div 5 + 1)"
    by (rule civil_from_days_parts)
  from assms have m: "m = (if mp < 10 then mp + 3 else mp - 9)"
    and d: "d = doy - (153 * mp + 2) div 5 + 1"
    and y0: "y = yoe + era * 400 + (if (if mp < 10 then mp + 3 else mp - 9) \<le> 2 then 1 else 0)"
    unfolding eq prod.inject by blast+
  from y0 m have y: "y = yoe + era * 400 + (if m \<le> 2 then 1 else 0)"
    by (simp only:)
  have y': "(if m \<le> 2 then y - 1 else y) = yoe + era * 400"
    using y by simp
  have e1: "(yoe + era * 400) div 400 = era" and e2: "(yoe + era * 400) mod 400 = yoe"
    using yoe by auto
  have mp': "(if m > 2 then m - 3 else m + 9) = mp"
    using m mp by auto
  have "days_from_civil y m d = era * 146097 + (yoe * 365 + yoe div 4 - yoe div 100 + doy) - 719468"
    unfolding days_from_civil_def Let_def y' e1 e2 mp' d by simp
  also have "\<dots> = (z + 719468) div 146097 * 146097 + (z + 719468) mod 146097 - 719468"
    by (simp only: doe era)
  finally show ?thesis by simp
qed

lemma civil_from_days_range:
  assumes "civil_from_days z = (y, m, d)"
  shows "1 \<le> m \<and> m \<le> 12 \<and> 1 \<le> d \<and> d \<le> 31 \<and>
         400 * ((z + 719468) div 146097) \<le> y \<and> y \<le> 400 * ((z + 719468) div 146097) + 400"
proof -
  obtain era yoe doy mp where
    era: "era = (z + 719468) div 146097" and
    yoe: "0 \<le> yoe" "yoe < 400" and
    doy: "0 \<le> doy" "doy \<le> 365" and
    mp: "0 \<le> mp" "mp \<le> 11" and
    mpd: "mp = (5 * doy + 2) div 153" and
    eq: "civil_from_days z =
      (yoe + era * 400 + (if (if mp < 10 then mp + 3 else mp - 9) \<le> 2 then 1 else 0),
       (if mp < 10 then mp + 3 else mp - 9), doy - (153 * mp + 2) div 5 + 1)"
    by (rule civil_from_days_parts)
  from assms have m: "m = (if mp < 10 then mp + 3 else mp - 9)"
    and d: "d = doy - (153 * mp + 2) div 5 + 1"
    and y: "y = yoe + era * 400 + (if (if mp < 10 then mp + 3 else mp - 9) \<le> 2 then 1 else 0)"
    unfolding eq prod.inject by blast+
  define g where "g = (153 * mp + 2) div 5"
  have g: "153 * mp + 2 = 5 * g + (153 * mp + 2) mod 5"
    by (simp add: g_def)
  have gm: "0 \<le> (153 * mp + 2) mod 5" "(153 * mp + 2) mod 5 < 5"
    by simp_all
  have p: "5 * doy + 2 = 153 * mp + (5 * doy + 2) mod 153"
    by (simp add: mpd)
  have pm: "0 \<le> (5 * doy + 2) mod 153" "(5 * doy + 2) mod 153 < 153"
    by simp_all
  have "g \<le> doy" and "doy - g \<le> 30"
    using g gm p pm by linarith+
  then have "1 \<le> d" "d \<le> 31"
    by (simp_all add: d g_def)
  moreover have "1 \<le> m" "m \<le> 12"
    using m mp by auto
  moreover have "400 * era \<le> y" "y \<le> 400 * era + 400"
    using y yoe by auto
  ultimately show ?thesis
    by (simp add: era)
qed

lemma digit_char_inject: "digit_char a = digit_char b \<Longrightarrow> a mod 10 = b mod 10"
proof -
  assume e: "digit_char a = digit_char b"
  have d: "distinct ''0123456789''" by simp
  have "a mod 10 < length ''0123456789''" "b mod 10 < length ''0123456789''"
    by simp_all
  with d e show ?thesis
    unfolding digit_char_def by (simp only: nth_eq_iff_index_eq)
qed

lemma div10_step: "(x::nat) = 10 * (x div 10) + x mod 10"
  by simp

lemma zero_pad2_inject:
  assumes "zero_pad2 a = zero_pad2 b" and "a < 100" and "b < 100"
  shows "a = b"
proof -
  from assms(1) have h: "(a div 10) mod 10 = (b div 10) mod 10" and l: "a mod 10 = b mod 10"
    by (auto simp: zero_pad2_def dest: digit_char_inject)
  from assms(2,3) have "a div 10 < 10" "b div 10 < 10"
    by simp_all
  with h have "a div 10 = b div 10"
    by simp
  with l div10_step [of a] div10_step [of b] show ?thesis
    by simp
qed

lemma zero_pad4_inject:
  assumes "zero_pad4 a = zero_pad4 b" and "a < 10000" and "b < 10000"
  shows "a = b"
proof -
  from assms(1) have d3: "(a div 1000) mod 10 = (b div 1000) mod 10"
    and d2: "(a div 100) mod 10 = (b div 100) mod 10"
    and d1: "(a div 10) mod 10 = (b div 10) mod 10" and d0: "a mod 10 = b mod 10"
    by (auto simp: zero_pad4_def dest: digit_char_inject)
  from assms(2,3) have "a div 1000 < 10" "b div 1000 < 10"
    by simp_all
  with d3 have e3: "a div 1000 = b div 1000"
    by simp
  have "a div 100 = 10 * (a div 1000) + (a div 100) mod 10"
    "b div 100 = 10 * (b div 1000) + (b div 100) mod 10"
    using div10_step [of "a div 100"] div10_step [of "b div 100"]
    by (simp_all add: div_mult2_eq [symmetric])
  with e3 d2 have e2: "a div 100 = b div 100"
    by simp
  have "a div 10 = 10 * (a div 100) + (a div 10) mod 10"
    "b div 10 = 10 * (b div 100) + (b div 10) mod 10"
    using div10_step [of "a div 10"] div10_step [of "b div 10"]
    by (simp_all add: div_mult2_eq [symmetric])
  with e2 d1 have e1: "a div 10 = b div 10"
    by simp
  with d0 div10_step [of a] div10_step [of b] show ?thesis
    by simp
qed

lemma strftime_ymd_inject:
  assumes "strftime_ymd z1 = strftime_ymd z2"
      and "in_bounds (z1 * ns_per_day)" and "in_bounds (z2 * ns_per_day)"
  shows "z1 = z2"
proof -
  obtain y1 m1 d1 where c1: "civil_from_days z1 = (y1, m1, d1)"
    by (cases "civil_from_days z1") auto
  obtain y2 m2 d2 where c2: "civil_from_days z2 = (y2, m2, d2)"
    by (cases "civil_from_days z2") auto
  note r1 = civil_from_days_range [OF c1] and r2 = civil_from_days_range [OF c2]
  have b1: "- 106752 < z1" "z1 < 106752" and b2: "- 106752 < z2" "z2 < 106752"
    using assms(2,3) by (simp_all add: in_bounds_def ns_per_day_def ns_per_second_def)
  have "584388 div 146097 \<le> (z1 + 719468) div 146097"
    and "(z1 + 719468) div 146097 \<le> 826219 div 146097"
    using b1 by (intro zdiv_mono1; simp)+
  then have e1: "4 \<le> (z1 + 719468) div 146097" "(z1 + 719468) div 146097 \<le> 5"
    by simp_all
  have "584388 div 146097 \<le> (z2 + 719468) div 146097"
    and "(z2 + 719468) div 146097 \<le> 826219 div 146097"
    using b2 by (intro zdiv_mono1; simp)+
  then have e2: "4 \<le> (z2 + 719468) div 146097" "(z2 + 719468) div 146097 \<le> 5"
    by simp_all
  have y1: "0 \<le> y1" "y1 < 10000" and y2: "0 \<le> y2" "y2 < 10000"
    using r1 r2 e1 e2 by simp_all
  from assms(1) have "zero_pad4 (nat y1) = zero_pad4 (nat y2)"
    and "zero_pad2 (nat m1) = zero_pad2 (nat m2)"
    and "zero_pad2 (nat d1) = zero_pad2 (nat d2)"
    by (simp_all add: strftime_ymd_def c1 c2 zero_pad4_def zero_pad2_def)
  then have "nat y1 = nat y2" "nat m1 = nat m2" "nat d1 = nat d2"
    using y1 y2 r1 r2
    by (auto intro: zero_pad4_inject zero_pad2_inject)
  moreover have "0 \<le> m1" "0 \<le> m2" "0 \<le> d1" "0 \<le> d2"
    using r1 r2 by simp_all
  ultimately have "y1 = y2" "m1 = m2" "d1 = d2"
    using y1 y2 by simp_all
  with days_from_civil_civil_from_days [OF c1] days_from_civil_civil_from_days [OF c2]
  show ?thesis by simp
qed

section \<open>Properties of the price pipeline\<close>

lemma fst_parse_price_dates: "map fst (parse_price_dates pd rows) = price_dates pd rows"
  by (simp add: parse_price_dates_def price_dates_def comp_def)

lemma set_dropna_dates: "set (dropna_dates xs) = {d. Some d \<in> set xs}"
  by (induction xs rule: dropna_dates.induct) auto

lemma series_min_Min:
  "series_min col = (if dropna_dates col = [] then None else Some (Min (set (dropna_dates col))))"
proof (cases "dropna_dates col")
  case Nil
  then show ?thesis by (simp add: series_min_def)
next
  case (Cons d ds)
  have "fold min ds d = Min (set (d # ds))"
    by (simp only: Min.set_eq_fold)
  with Cons show ?thesis by (simp add: series_min_def)
qed

lemma series_max_Max:
  "series_max col = (if dropna_dates col = [] then None else Some (Max (set (dropna_dates col))))"
proof (cases "dropna_dates col")
  case Nil
  then show ?thesis by (simp add: series_max_def)
next
  case (Cons d ds)
  have "fold max ds d = Max (set (d # ds))"
    by (simp only: Max.set_eq_fold)
  with Cons show ?thesis by (simp add: series_max_def)
qed

lemma mset_insort_date: "mset (insort_date x ys) = add_mset x (mset ys)"
  by (induction ys) auto

lemma mset_sort_values_date: "mset (sort_values_date rows) = mset rows"
  by (induction rows) (auto simp: sort_values_date_def mset_insort_date)

lemma set_sort_values_date: "set (sort_values_date rows) = set rows"
  by (metis mset_sort_values_date set_mset_mset)

lemma distinct_fst_sort_values_date:
  "distinct (map fst (sort_values_date rows)) = distinct (map fst rows)"
proof -
  have "mset (map fst (sort_values_date rows)) = mset (map fst rows)"
    by (simp add: mset_sort_values_date)
  then show ?thesis
    by (rule mset_eq_imp_distinct_iff)
qed

lemma map_of_sort_values_date:
  assumes "distinct (map fst rows)"
  shows "map_of (sort_values_date rows) = map_of rows"
  using assms
  by (subst map_of_inject_set) (simp_all add: distinct_fst_sort_values_date set_sort_values_date)

lemma dropna_sorted_set:
  "set (dropna_dates (map fst (sort_values_date rows))) = set (dropna_dates (map fst rows))"
  by (simp add: set_dropna_dates set_sort_values_date)

lemma dropna_sorted_Nil:
  "dropna_dates (map fst (sort_values_date rows)) = [] \<longleftrightarrow> dropna_dates (map fst rows) = []"
  by (metis dropna_sorted_set set_empty)

lemma map_fst_ffill_from: "map fst (ffill_from prev rows) = map fst rows"
  by (induction prev rows rule: ffill_from.induct) auto

lemma length_ffill_from: "length (ffill_from prev rows) = length rows"
  by (induction prev rows rule: ffill_from.induct) auto

lemma ffill_row_nan: "ffill_row prev nan_row = prev"
  by (simp add: ffill_row_def nan_row_def)

lemma ffill_from_gap:
  "Suc i < length rows \<Longrightarrow> snd (rows ! Suc i) = nan_row \<Longrightarrow>
     snd (ffill_from prev rows ! Suc i) = snd (ffill_from prev rows ! i)"
proof (induction prev rows arbitrary: i rule: ffill_from.induct)
  case (1 prev)
  then show ?case by simp
next
  case (2 prev d c rows)
  show ?case
  proof (cases i)
    case 0
    with 2 obtain d' rest where rows: "rows = (d', nan_row) # rest"
      by (cases rows) (auto simp: prod_eq_iff)
    with 0 show ?thesis by (simp add: ffill_row_nan)
  next
    case (Suc j)
    with 2 show ?thesis by simp
  qed
qed

lemma iterrows_history_length:
  "iterrows_history nbd rows = Inr h \<Longrightarrow> length h = length rows"
  by (induction nbd rows arbitrary: h rule: iterrows_history.induct)
     (auto split: cell.splits sum.splits)

lemma iterrows_history_nth:
  "iterrows_history nbd rows = Inr h \<Longrightarrow> i < length rows \<Longrightarrow>
     rec_date (h ! i) = strftime_ymd (fst (rows ! i)) \<and>
     news_headlines (h ! i) = dict_get nbd (fst (rows ! i)) \<and>
     md_high (rec_market_data (h ! i)) = high (snd (rows ! i)) \<and>
     md_low (rec_market_data (h ! i)) = low (snd (rows ! i)) \<and>
     md_close (rec_market_data (h ! i)) = close (snd (rows ! i)) \<and>
     Val (md_volume (rec_market_data (h ! i))) = volume (snd (rows ! i))"
proof (induction nbd rows arbitrary: h i rule: iterrows_history.induct)
  case (1 nbd)
  then show ?case by simp
next
  case (2 nbd d c rows)
  then show ?case
    by (cases i) (auto split: cell.splits sum.splits)
qed

lemma iterrows_history_dates:
  "iterrows_history nbd rows = Inr h \<Longrightarrow> map rec_date h = map (strftime_ymd \<circ> fst) rows"
  by (induction nbd rows arbitrary: h rule: iterrows_history.induct)
     (auto split: cell.splits sum.splits)

lemma reindex_duplicate:
  assumes "\<not> distinct (map fst df)" and "distinct target"
  shows "reindex df target = Inl ValueError"
proof -
  have "distinct (map Some target)"
    using assms(2) by (simp add: distinct_map)
  with assms(1) have "map fst df \<noteq> map Some target"
    by auto
  with assms show ?thesis by (simp add: reindex_def)
qed

lemma reindex_distinct:
  assumes "distinct (map fst df)"
  shows "reindex df target =
           Inr (map (\<lambda>d. (d, case map_of df (Some d) of None \<Rightarrow> nan_row | Some c \<Rightarrow> c)) target)"
  using assms by (simp add: reindex_def)

lemma price_daily_no_valid:
  assumes "dropna_dates (price_dates pd rows) = []"
  shows "price_daily pd rows = Inl ValueError"
proof -
  have "dropna_dates (map fst (sort_values_date (parse_price_dates pd rows))) = []"
    using assms by (simp add: dropna_sorted_Nil fst_parse_price_dates)
  then show ?thesis
    by (simp add: price_daily_def series_min_Min)
qed

lemma price_daily_duplicate:
  assumes "\<not> distinct (price_dates pd rows)"
  shows "price_daily pd rows = Inl ValueError"
proof -
  let ?df = "sort_values_date (parse_price_dates pd rows)"
  have nd: "\<not> distinct (map fst ?df)"
    using assms by (simp add: distinct_fst_sort_values_date fst_parse_price_dates)
  show ?thesis
  proof (cases "date_range (series_min (map fst ?df)) (series_max (map fst ?df))")
    case (Inl e)
    then have "e = ValueError"
      by (cases "series_min (map fst ?df)"; cases "series_max (map fst ?df)") auto
    with Inl show ?thesis by (simp add: price_daily_def)
  next
    case (Inr full_range)
    then have "distinct full_range"
      by (cases "series_min (map fst ?df)"; cases "series_max (map fst ?df)") auto
    with nd have "reindex ?df full_range = Inl ValueError"
      by (rule reindex_duplicate)
    with Inr show ?thesis by (simp add: price_daily_def)
  qed
qed

lemma price_daily_ok:
  assumes "dropna_dates (price_dates pd rows) \<noteq> []" and "distinct (price_dates pd rows)"
  shows "price_daily pd rows =
           Inr (ffill (map (\<lambda>d. (d, raw_cells pd rows d))
             [Min (set (dropna_dates (price_dates pd rows))) ..
              Max (set (dropna_dates (price_dates pd rows)))]))"
proof -
  let ?raw = "parse_price_dates pd rows"
  let ?df = "sort_values_date ?raw"
  have d: "distinct (map fst ?raw)"
    using assms(2) by (simp add: fst_parse_price_dates)
  have ne: "dropna_dates (map fst ?df) \<noteq> []"
    using assms(1) by (simp add: dropna_sorted_Nil fst_parse_price_dates)
  have s: "set (dropna_dates (map fst ?df)) = set (dropna_dates (price_dates pd rows))"
    by (simp add: dropna_sorted_set fst_parse_price_dates)
  have m: "map_of ?df = map_of ?raw"
    using d by (rule map_of_sort_values_date)
  have "distinct (map fst ?df)"
    using d by (simp add: distinct_fst_sort_values_date)
  then show ?thesis
    using ne s m
    by (simp add: price_daily_def series_min_Min series_max_Max reindex_distinct raw_cells_def)
qed

lemma price_daily_Inr:
  assumes "price_daily pd rows = Inr daily"
  shows "dropna_dates (price_dates pd rows) \<noteq> [] \<and> distinct (price_dates pd rows)"
  using assms price_daily_no_valid [of pd rows] price_daily_duplicate [of pd rows]
  by auto

section \<open>Properties of the file operations\<close>

lemma write_output_None:
  assumes "write_output fs path history = (fs', None)"
  shows "files fs' = (files fs)(path \<mapsto> JsonDoc history)"
  using assms
  by (auto simp: write_output_def write_json_def makedirs_def Let_def
           split: if_splits sum.splits)

lemma aggregate_for_symbol_None:
  assumes "aggregate_for_symbol pd fs symbol price_csv news_csv out_json = (fs', None)"
  shows "\<exists>prices news daily history.
           files fs (price_path symbol price_csv) = Some (PriceCsv prices) \<and>
           files fs (news_path symbol news_csv) = Some (NewsCsv news) \<and>
           price_daily pd prices = Inr daily \<and>
           iterrows_history (news_by_date pd news) daily = Inr history \<and>
           files fs' = (files fs)(out_path symbol out_json \<mapsto> JsonDoc history)"
proof -
  from assms obtain pf nf where
    pf: "files fs (price_path symbol price_csv) = Some pf" and
    nf: "files fs (news_path symbol news_csv) = Some nf"
    by (auto simp: aggregate_for_symbol_def read_csv_def split: option.splits)
  from assms pf nf obtain prices where prices: "pf = PriceCsv prices"
    by (cases pf) (auto simp: aggregate_for_symbol_def read_csv_def)
  from assms pf nf prices obtain daily where daily: "price_daily pd prices = Inr daily"
    by (cases "price_daily pd prices") (auto simp: aggregate_for_symbol_def read_csv_def)
  from assms pf nf prices daily obtain news where news: "nf = NewsCsv news"
    by (cases nf) (auto simp: aggregate_for_symbol_def read_csv_def)
  from assms pf nf prices daily news obtain history where
    h: "iterrows_history (news_by_date pd news) daily = Inr history"
    by (cases "iterrows_history (news_by_date pd news) daily")
       (auto simp: aggregate_for_symbol_def read_csv_def)
  from assms pf nf prices daily news h
  have "write_output fs (out_path symbol out_json) history = (fs', None)"
    by (simp add: aggregate_for_symbol_def read_csv_def)
  then have "files fs' = (files fs)(out_path symbol out_json \<mapsto> JsonDoc history)"
    by (rule write_output_None)
  with pf nf prices daily news h show ?thesis by simp
qed

lemma aggregate_for_symbol_price_error:
  assumes "files fs (price_path symbol price_csv) = Some (PriceCsv prices)"
      and "price_daily pd prices = Inl e"
  shows "aggregate_for_symbol pd fs symbol price_csv news_csv out_json =
           (fs, Some (if files fs (news_path symbol news_csv) = None
                      then FileNotFoundError else e))"
  using assms
  by (auto simp: aggregate_for_symbol_def read_csv_def split: option.splits)

section \<open>Properties of the headline pipeline\<close>

lemma dict_get_groupby_date: "dict_get (groupby_date rows) d = group_entries rows d"
proof (cases "d \<in> fst ` set rows")
  case True
  then show ?thesis
    by (simp add: dict_get_def groupby_date_def map_of_map_restrict)
next
  case False
  then have "filter (\<lambda>r. fst r = d) rows = []"
    by (auto simp: filter_empty_conv)
  with False show ?thesis
    by (simp add: dict_get_def groupby_date_def map_of_map_restrict group_entries_def)
qed

lemma group_entries_sort_values_news:
  "group_entries (sort_values_news rows) d =
     map (\<lambda>(d', t, h). \<lparr>time = t, headline = h\<rparr>)
       (sort_key (\<lambda>(d, t, h). (d, t)) (filter (\<lambda>r. fst r = d) rows))"
  by (simp add: group_entries_def sort_values_news_def filter_sort)

lemma mset_group_entries_sorted:
  "mset (group_entries (sort_values_news rows) d) = mset (group_entries rows d)"
  by (simp add: group_entries_def sort_values_news_def)

lemma sorted_same_day:
  assumes "sorted (map (\<lambda>(d, t, h). (d, t)) rows)" and "\<forall>r \<in> set rows. fst r = d"
  shows "sorted (map (\<lambda>(d', t, h). t) rows)"
  using assms
proof (induction rows)
  case Nil
  then show ?case by simp
next
  case (Cons r rows)
  have "fst (snd r) \<le> fst (snd x)" if "x \<in> set rows" for x
  proof -
    from that Cons.prems(1) have "(fst r, fst (snd r)) \<le> (fst x, fst (snd x))"
      by (auto simp: case_prod_unfold)
    moreover from that Cons.prems(2) have "fst x = fst r"
      by simp
    ultimately show ?thesis
      by (simp add: less_eq_prod_def)
  qed
  with Cons show ?case
    by (auto simp: case_prod_unfold)
qed

lemma sorted_time_group_entries:
  "sorted (map time (group_entries (sort_values_news rows) d))"
proof -
  let ?g = "sort_key (\<lambda>(d, t, h). (d, t)) (filter (\<lambda>r. fst r = d) rows)"
  have "sorted (map (\<lambda>(d, t, h). (d, t)) ?g)"
    by (rule sorted_sort_key)
  moreover have "\<forall>r \<in> set ?g. fst r = d"
    by simp
  ultimately have "sorted (map (\<lambda>(d', t, h). t) ?g)"
    by (rule sorted_same_day)
  moreover have "map time (group_entries (sort_values_news rows) d) = map (\<lambda>(d', t, h). t) ?g"
    by (simp add: group_entries_sort_values_news comp_def case_prod_unfold)
  ultimately show ?thesis by simp
qed

lemma group_entries_news_columns:
  "group_entries (news_columns surv) d =
     map (\<lambda>(t, r). \<lparr>time = strftime_hms t, headline = Article_title r\<rparr>)
       (filter (\<lambda>(t, r). date_only t = d) surv)"
  by (induction surv) (auto simp: group_entries_def news_columns_def)

lemma mset_news_by_date:
  "mset (dict_get (news_by_date pd news) d) =
     mset (map (\<lambda>(t, r). \<lparr>time = strftime_hms t, headline = Article_title r\<rparr>)
       (filter (\<lambda>(t, r). date_only t = d) (surviving_news pd news)))"
  by (simp only: news_by_date_def dict_get_groupby_date mset_group_entries_sorted
        group_entries_news_columns)

lemma sorted_news_by_date:
  "sorted (map time (dict_get (news_by_date pd news) d))"
  by (simp only: news_by_date_def dict_get_groupby_date sorted_time_group_entries)

lemma length_loc_assign: "length (loc_assign ps vs) = length ps"
  by (induction ps vs rule: loc_assign.induct) auto

lemma loc_assign_nth:
  "i < length ps \<Longrightarrow>
     loc_assign ps vs ! i =
       (case ps ! i of
          Some t \<Rightarrow> Some t
        | None \<Rightarrow>
            (if length (filter (\<lambda>p. p = None) (take i ps)) < length vs
             then vs ! length (filter (\<lambda>p. p = None) (take i ps)) else None))"
proof (induction ps vs arbitrary: i rule: loc_assign.induct)
  case (1 vs)
  then show ?case by simp
next
  case (2 t ps vs)
  then show ?case by (cases i) (auto split: option.splits)
next
  case (3 ps)
  then show ?case by (cases i) (auto split: option.splits)
next
  case (4 ps v vs)
  then show ?case by (cases i) (auto split: option.splits)
qed

lemma length_parse_news_dates: "length (parse_news_dates pd col) = length col"
  by (simp add: parse_news_dates_def Let_def length_loc_assign)

lemma parse_news_dates_nth:
  assumes "i < length col"
  shows "parse_news_dates pd col ! i =
           (case to_datetime_cell (to_datetime_primary pd) (col ! i) of
              Some t \<Rightarrow> Some t
            | None \<Rightarrow>
                (let parsed = map (to_datetime_cell (to_datetime_primary pd)) col;
                     vs = to_datetime_generic pd (fallback_rows col parsed);
                     k = length (filter (\<lambda>p. p = None) (take i parsed))
                 in if k < length vs then vs ! k else None))"
proof -
  let ?parsed = "map (to_datetime_cell (to_datetime_primary pd)) col"
  show ?thesis
  proof (cases "list_ex (\<lambda>p. p = None) ?parsed")
    case True
    with assms show ?thesis
      by (simp add: parse_news_dates_def Let_def loc_assign_nth split: option.splits)
  next
    case False
    have "?parsed ! i \<in> set ?parsed"
      using assms by (intro nth_mem) simp
    with False have "?parsed ! i \<noteq> None"
      unfolding list_ex_iff by metis
    with assms False show ?thesis
      by (auto simp: parse_news_dates_def Let_def split: option.splits)
  qed
qed

lemma set_dropna_news: "set (dropna_news xs) = {(t, r). (Some t, r) \<in> set xs}"
  by (induction xs rule: dropna_news.induct) auto

lemma surviving_news_iff:
  "(t, r) \<in> set (surviving_news pd news) \<longleftrightarrow>
     (\<exists>j < length news. news ! j = r \<and> parse_news_dates pd (map Date news) ! j = Some t)"
  by (auto simp: surviving_news_def set_dropna_news in_set_zip length_parse_news_dates)

lemma news_headlines_set:
  "set (dict_get (news_by_date pd news) d) =
     (\<lambda>(t, r). \<lparr>time = strftime_hms t, headline = Article_title r\<rparr>) `
       {x \<in> set (surviving_news pd news). date_only (fst x) = d}"
proof -
  have "set (dict_get (news_by_date pd news) d) = set_mset (mset (dict_get (news_by_date pd news) d))"
    by simp
  also have "\<dots> = set (map (\<lambda>(t, r). \<lparr>time = strftime_hms t, headline = Article_title r\<rparr>)
       (filter (\<lambda>(t, r). date_only t = d) (surviving_news pd news)))"
    by (simp only: mset_news_by_date set_mset_mset)
  also have "\<dots> = (\<lambda>(t, r). \<lparr>time = strftime_hms t, headline = Article_title r\<rparr>) `
       {x \<in> set (surviving_news pd news). date_only (fst x) = d}"
    by (auto simp: case_prod_unfold)
  finally show ?thesis .
qed

section \<open>Structure of the daily frame\<close>

lemma raw_cells_gap:
  assumes "Some d \<notin> set (price_dates pd rows)"
  shows "raw_cells pd rows d = nan_row"
proof -
  have "Some d \<notin> fst ` set (parse_price_dates pd rows)"
    using assms by (simp flip: fst_parse_price_dates)
  then have "map_of (parse_price_dates pd rows) (Some d) = None"
    by (simp add: map_of_eq_None_iff)
  then show ?thesis by (simp add: raw_cells_def)
qed

lemma valid_day_bounds:
  assumes "Some d \<in> set (price_dates pd rows)"
  shows "Min (set (dropna_dates (price_dates pd rows))) \<le> d"
    and "d \<le> Max (set (dropna_dates (price_dates pd rows)))"
proof -
  have "d \<in> set (dropna_dates (price_dates pd rows))"
    using assms by (simp add: set_dropna_dates)
  then show "Min (set (dropna_dates (price_dates pd rows))) \<le> d"
    and "d \<le> Max (set (dropna_dates (price_dates pd rows)))"
    by simp_all
qed

lemma price_daily_frame:
  assumes "price_daily pd rows = Inr daily"
  shows "daily = ffill (map (\<lambda>d. (d, raw_cells pd rows d))
           [Min (set (dropna_dates (price_dates pd rows))) ..
            Max (set (dropna_dates (price_dates pd rows)))])"
  using assms price_daily_Inr [OF assms] price_daily_ok [of pd rows] by simp

lemma price_daily_days:
  assumes "price_daily pd rows = Inr daily"
  shows "map fst daily =
           [Min (set (dropna_dates (price_dates pd rows))) ..
            Max (set (dropna_dates (price_dates pd rows)))]"
  by (simp add: price_daily_frame [OF assms] ffill_def map_fst_ffill_from comp_def)

lemma price_daily_nth:
  assumes "price_daily pd rows = Inr daily"
      and "Min (set (dropna_dates (price_dates pd rows))) \<le> d"
      and "d \<le> Max (set (dropna_dates (price_dates pd rows)))"
  shows "nat (d - Min (set (dropna_dates (price_dates pd rows)))) < length daily"
    and "fst (daily ! nat (d - Min (set (dropna_dates (price_dates pd rows))))) = d"
proof -
  let ?s = "Min (set (dropna_dates (price_dates pd rows)))"
  let ?e = "Max (set (dropna_dates (price_dates pd rows)))"
  have len: "length daily = length [?s..?e]"
    by (metis price_daily_days [OF assms(1)] length_map)
  show lt: "nat (d - ?s) < length daily"
    using assms(2,3) by (simp add: len)
  have "fst (daily ! nat (d - ?s)) = map fst daily ! nat (d - ?s)"
    using lt by simp
  also have "\<dots> = [?s..?e] ! nat (d - ?s)"
    by (simp only: price_daily_days [OF assms(1)])
  also have "\<dots> = d"
    using assms(2,3) by (simp add: nth_upto)
  finally show "fst (daily ! nat (d - ?s)) = d" .
qed

lemma price_daily_gap_step:
  assumes "price_daily pd rows = Inr daily"
      and "Min (set (dropna_dates (price_dates pd rows))) \<le> d"
      and "d + 1 \<le> Max (set (dropna_dates (price_dates pd rows)))"
      and "Some (d + 1) \<notin> set (price_dates pd rows)"
  shows "snd (daily ! nat (d + 1 - Min (set (dropna_dates (price_dates pd rows))))) =
         snd (daily ! nat (d - Min (set (dropna_dates (price_dates pd rows)))))"
proof -
  let ?s = "Min (set (dropna_dates (price_dates pd rows)))"
  let ?e = "Max (set (dropna_dates (price_dates pd rows)))"
  let ?raw = "map (\<lambda>d. (d, raw_cells pd rows d)) [?s..?e]"
  have i: "nat (d + 1 - ?s) = Suc (nat (d - ?s))"
    using assms(2) by simp
  have lt: "Suc (nat (d - ?s)) < length ?raw"
    using assms(2,3) by simp
  have "?s + int (Suc (nat (d - ?s))) \<le> ?e"
    using assms(2,3) by simp
  then have "[?s..?e] ! Suc (nat (d - ?s)) = ?s + int (Suc (nat (d - ?s)))"
    by (rule nth_upto)
  also have "\<dots> = d + 1"
    using assms(2) by simp
  finally have "?raw ! Suc (nat (d - ?s)) = (d + 1, raw_cells pd rows (d + 1))"
    using lt by simp
  then have "snd (?raw ! Suc (nat (d - ?s))) = nan_row"
    by (simp add: raw_cells_gap [OF assms(4)])
  with lt have "snd (ffill_from nan_row ?raw ! Suc (nat (d - ?s))) =
      snd (ffill_from nan_row ?raw ! nat (d - ?s))"
    by (rule ffill_from_gap)
  then show ?thesis
    by (simp only: i price_daily_frame [OF assms(1)] ffill_def)
qed

lemma price_daily_gap_run:
  assumes "price_daily pd rows = Inr daily"
      and "Min (set (dropna_dates (price_dates pd rows))) \<le> p"
      and "p + int k \<le> Max (set (dropna_dates (price_dates pd rows)))"
      and "\<And>d'. p < d' \<Longrightarrow> d' \<le> p + int k \<Longrightarrow> Some d' \<notin> set (price_dates pd rows)"
  shows "snd (daily ! nat (p + int k - Min (set (dropna_dates (price_dates pd rows))))) =
         snd (daily ! nat (p - Min (set (dropna_dates (price_dates pd rows)))))"
  using assms(3,4)
proof (induction k)
  case 0
  then show ?case by simp
next
  case (Suc k)
  have eq: "p + int (Suc k) = p + int k + 1"
    by simp
  have "snd (daily ! nat (p + int k + 1 - Min (set (dropna_dates (price_dates pd rows))))) =
        snd (daily ! nat (p + int k - Min (set (dropna_dates (price_dates pd rows)))))"
    using assms(1,2) Suc.prems by (intro price_daily_gap_step) auto
  moreover have "snd (daily ! nat (p + int k - Min (set (dropna_dates (price_dates pd rows))))) =
        snd (daily ! nat (p - Min (set (dropna_dates (price_dates pd rows)))))"
    using Suc.prems by (intro Suc.IH) auto
  ultimately show ?case
    by (simp only: eq)
qed

lemma market_data_eq:
  assumes "iterrows_history nbd daily = Inr history"
      and "i < length daily" and "j < length daily"
      and "snd (daily ! i) = snd (daily ! j)"
  shows "rec_market_data (history ! i) = rec_market_data (history ! j)"
proof -
  note a = iterrows_history_nth [OF assms(1,2)] and b = iterrows_history_nth [OF assms(1,3)]
  have "Val (md_volume (rec_market_data (history ! i))) = Val (md_volume (rec_market_data (history ! j)))"
    using a b assms(4) by simp
  then have "md_volume (rec_market_data (history ! i)) = md_volume (rec_market_data (history ! j))"
    by simp
  then show ?thesis
    using a b assms(4) by (intro market_data.equality) simp_all
qed

section \<open>The example run\<close>

lemma ex_price_dates: "price_dates ex_pandas ex_prices = [Some 19358, Some 19360]"
  by code_simp

lemma ex_price_daily:
  "price_daily ex_pandas ex_prices =
     Inr [(19358, \<lparr>high = Val 10, low = Val 9, close = Val (19 / 2), volume = Val 100\<rparr>),
          (19359, \<lparr>high = Val 10, low = Val 9, close = Val (19 / 2), volume = Val 100\<rparr>),
          (19360, \<lparr>high = Val 12, low = Val 11, close = Val (23 / 2), volume = Val 200\<rparr>)]"
  by code_simp

lemma ex_parse_news:
  "parse_news_dates ex_pandas (map Date ex_news) =
     [Some 1672720200000000000, Some 1672653600000000000, None, Some 1675332000000000000,
      Some 1675414800000000000, Some 1672708500000000000]"
  by code_simp

lemma ex_build_history: "build_history ex_pandas ex_prices ex_news = Inr ex_history"
  by code_simp

lemma ex_paths:
  "price_path ''aapl'' (Some ''prices.csv'') = ''prices.csv''"
  "news_path ''aapl'' (Some ''news.csv'') = ''news.csv''"
  "out_path ''aapl'' (Some ''out/aapl.json'') = ''out/aapl.json''"
  by (simp_all add: price_path_def news_path_def out_path_def or_default_def)

lemma ex_dirname: "dirname ''out/aapl.json'' = ''out''"
  by code_simp

lemma ex_run:
  "aggregate_for_symbol ex_pandas ex_fs ''aapl'' (Some ''prices.csv'') (Some ''news.csv'')
       (Some ''out/aapl.json'') =
     (\<lparr>files = (files ex_fs)(''out/aapl.json'' \<mapsto> JsonDoc ex_history), dirs = {''out''}\<rparr>, None)"
  using ex_build_history
  by (auto simp: aggregate_for_symbol_def ex_paths read_csv_def ex_fs_def build_history_def
        write_output_def ex_dirname makedirs_def write_json_def Let_def
        split: sum.splits)

lemma series_bounds:
  assumes "series_min col = Some s" and "series_max col = Some e"
  shows "s = Min (set (dropna_dates col))" and "e = Max (set (dropna_dates col))"
  using assms by (simp_all add: series_min_Min series_max_Max split: if_splits)

lemma series_bounds_exist:
  assumes "dropna_dates col \<noteq> []"
  shows "\<exists>s e. series_min col = Some s \<and> series_max col = Some e"
  using assms by (simp add: series_min_Min series_max_Max)

lemma ex_series:
  "series_min (price_dates ex_pandas ex_prices) = Some 19358"
  "series_max (price_dates ex_pandas ex_prices) = Some 19360"
  by (simp_all add: ex_price_dates series_min_def series_max_def)

lemma ex_files:
  "files ex_fs (price_path ''aapl'' (Some ''prices.csv'')) = Some (PriceCsv ex_prices)"
  "files ex_fs (news_path ''aapl'' (Some ''news.csv'')) = Some (NewsCsv ex_news)"
  "files ex_fs_after (out_path ''aapl'' (Some ''out/aapl.json'')) = Some (JsonDoc ex_history)"
  by (simp_all add: ex_paths ex_fs_def ex_fs_after_def)

lemma ex_run_after:
  "aggregate_for_symbol ex_pandas ex_fs ''aapl'' (Some ''prices.csv'') (Some ''news.csv'')
       (Some ''out/aapl.json'') = (ex_fs_after, None)"
  by (simp add: ex_run ex_fs_after_def)

section \<open>Calendar completeness and forward fill\<close>

text \<open>
  C1. Whenever a run on a price table succeeds, the written document holds exactly one
  record per calendar day from the first to the last parseable price date, both included:
  with \<open>s\<close> and \<open>e\<close> the minimum and maximum of the dates that parse, the list of record
  dates is the list of the days \<open>s, s + 1, \<dots>, e\<close>, each formatted as \<^verbatim>\<open>YYYY-MM-DD\<close>, in that
  order. The days \<open>[s..e]\<close> are strictly increasing, so there is no gap, no duplicate,
  and the order is ascending; weekends and holidays are days like any other. Where the
  first and last day are within the range of a \<^verbatim>\<open>Timestamp\<close>, as every date that pandas
  parses is, the date strings of the records are pairwise different as well.
\<close>

theorem calendar_complete:
  assumes "files fs (price_path symbol price_csv) = Some (PriceCsv prices)"
      and "aggregate_for_symbol pd fs symbol price_csv news_csv out_json = (fs', None)"
  shows "\<exists>history s e.
           files fs' (out_path symbol out_json) = Some (JsonDoc history) \<and>
           series_min (price_dates pd prices) = Some s \<and>
           series_max (price_dates pd prices) = Some e \<and>
           s = Min {d. Some d \<in> set (price_dates pd prices)} \<and>
           e = Max {d. Some d \<in> set (price_dates pd prices)} \<and>
           s \<le> e \<and>
           length history = nat (e - s + 1) \<and>
           map rec_date history = map strftime_ymd [s..e] \<and>
           (in_bounds (s * ns_per_day) \<and> in_bounds (e * ns_per_day) \<longrightarrow>
              distinct (map rec_date history))"
proof -
  from aggregate_for_symbol_None [OF assms(2)] assms(1)
  obtain news daily history where
    daily: "price_daily pd prices = Inr daily" and
    h: "iterrows_history (news_by_date pd news) daily = Inr history" and
    out: "files fs' = (files fs)(out_path symbol out_json \<mapsto> JsonDoc history)"
    by auto
  from price_daily_Inr [OF daily] have ne: "dropna_dates (price_dates pd prices) \<noteq> []"
    by simp
  then obtain s e where
    s: "series_min (price_dates pd prices) = Some s" and
    e: "series_max (price_dates pd prices) = Some e"
    using series_bounds_exist by blast
  note b = series_bounds [OF s e]
  have days: "map fst daily = [s..e]"
    using price_daily_days [OF daily] b by simp
  have dates: "map rec_date history = map strftime_ymd [s..e]"
    using iterrows_history_dates [OF h] days by (simp flip: map_map)
  have len: "length history = nat (e - s + 1)"
    using iterrows_history_length [OF h] days by (metis length_map length_upto)
  have "s \<le> e"
    using ne b by simp
  moreover have "distinct (map rec_date history)"
    if "in_bounds (s * ns_per_day)" and "in_bounds (e * ns_per_day)"
  proof -
    have "in_bounds (z * ns_per_day)" if "z \<in> set [s..e]" for z
    proof -
      have "s * ns_per_day \<le> z * ns_per_day" "z * ns_per_day \<le> e * ns_per_day"
        using that by (simp_all add: ns_per_day_def ns_per_second_def)
      with \<open>in_bounds (s * ns_per_day)\<close> \<open>in_bounds (e * ns_per_day)\<close> show ?thesis
        unfolding in_bounds_def by linarith
    qed
    then have "inj_on strftime_ymd (set [s..e])"
      by (auto intro!: inj_onI strftime_ymd_inject)
    then show ?thesis
      by (simp add: dates distinct_map)
  qed
  ultimately show ?thesis
    using out s e b dates len by (simp add: set_dropna_dates)
qed

theorem calendar_complete_witness:
  "files ex_fs (price_path ''aapl'' (Some ''prices.csv'')) = Some (PriceCsv ex_prices) \<and>
   aggregate_for_symbol ex_pandas ex_fs ''aapl'' (Some ''prices.csv'') (Some ''news.csv'')
       (Some ''out/aapl.json'') = (ex_fs_after, None) \<and>
   files ex_fs_after (out_path ''aapl'' (Some ''out/aapl.json'')) = Some (JsonDoc ex_history) \<and>
   series_min (price_dates ex_pandas ex_prices) = Some 19358 \<and>
   series_max (price_dates ex_pandas ex_prices) = Some 19360 \<and>
   length ex_history = nat (19360 - 19358 + 1) \<and>
   map rec_date ex_history = map strftime_ymd [19358..19360] \<and>
   in_bounds (19358 * ns_per_day) \<and> in_bounds (19360 * ns_per_day) \<and>
   distinct (map rec_date ex_history)"
proof -
  have b: "in_bounds (19358 * ns_per_day)" "in_bounds (19360 * ns_per_day)"
    by (simp_all add: in_bounds_def ns_per_day_def ns_per_second_def)
  from calendar_complete [OF ex_files(1) ex_run_after]
  obtain history s e where
    h: "files ex_fs_after (out_path ''aapl'' (Some ''out/aapl.json'')) = Some (JsonDoc history)" and
    s: "series_min (price_dates ex_pandas ex_prices) = Some s" and
    e: "series_max (price_dates ex_pandas ex_prices) = Some e" and
    l: "length history = nat (e - s + 1)" and
    m: "map rec_date history = map strftime_ymd [s..e]" and
    d: "in_bounds (s * ns_per_day) \<and> in_bounds (e * ns_per_day) \<longrightarrow>
          distinct (map rec_date history)"
    by blast
  from h s e have "history = ex_history" "s = 19358" "e = 19360"
    by (simp_all add: ex_files(3) ex_series)
  with l m d b have "length ex_history = nat (19360 - 19358 + 1)"
    and "map rec_date ex_history = map strftime_ymd [19358..19360]"
    and "distinct (map rec_date ex_history)"
    by blast+
  with b show ?thesis
    using ex_files(1,3) ex_run_after ex_series by blast
qed

text \<open>
  C2. In the written document, a calendar day \<open>d\<close> of the range with no price row of
  that date carries the market data of \<open>p\<close>, the latest earlier day that has a price row:
  \<open>p\<close> has a row, and no day after \<open>p\<close> up to and including \<open>d\<close> has one. The record of a
  day \<open>x\<close> is at position \<open>x - s\<close> of the history.
\<close>

theorem forward_fill:
  assumes "files fs (price_path symbol price_csv) = Some (PriceCsv prices)"
      and "aggregate_for_symbol pd fs symbol price_csv news_csv out_json = (fs', None)"
      and "files fs' (out_path symbol out_json) = Some (JsonDoc history)"
      and "series_min (price_dates pd prices) = Some s"
      and "series_max (price_dates pd prices) = Some e"
      and "Some p \<in> set (price_dates pd prices)"
      and "p < d" and "d \<le> e"
      and "\<forall>d'. p < d' \<and> d' \<le> d \<longrightarrow> Some d' \<notin> set (price_dates pd prices)"
  shows "rec_date (history ! nat (d - s)) = strftime_ymd d \<and>
         rec_date (history ! nat (p - s)) = strftime_ymd p \<and>
         rec_market_data (history ! nat (d - s)) = rec_market_data (history ! nat (p - s))"
proof -
  from aggregate_for_symbol_None [OF assms(2)] assms(1,3)
  obtain news daily where
    daily: "price_daily pd prices = Inr daily" and
    h: "iterrows_history (news_by_date pd news) daily = Inr history"
    by auto
  note b = series_bounds [OF assms(4,5)]
  have sp: "s \<le> p" and pe: "p \<le> e"
    using valid_day_bounds [OF assms(6)] b by simp_all
  have ip: "nat (p - s) < length daily" and fp: "fst (daily ! nat (p - s)) = p"
    using price_daily_nth [OF daily, of p] sp pe b by simp_all
  have id: "nat (d - s) < length daily" and fd: "fst (daily ! nat (d - s)) = d"
    using price_daily_nth [OF daily, of d] sp assms(7,8) b by simp_all
  obtain k where k: "d = p + int k"
    using assms(7) by (metis less_imp_le zle_iff_zadd)
  have "snd (daily ! nat (p + int k - s)) = snd (daily ! nat (p - s))"
    unfolding b(1)
    using daily sp assms(8,9) b k by (intro price_daily_gap_run) auto
  then have "snd (daily ! nat (d - s)) = snd (daily ! nat (p - s))"
    by (simp only: k)
  with h id ip have "rec_market_data (history ! nat (d - s)) = rec_market_data (history ! nat (p - s))"
    by (rule market_data_eq)
  moreover have "rec_date (history ! nat (d - s)) = strftime_ymd d"
    using iterrows_history_nth [OF h id] fd by simp
  moreover have "rec_date (history ! nat (p - s)) = strftime_ymd p"
    using iterrows_history_nth [OF h ip] fp by simp
  ultimately show ?thesis by simp
qed

theorem forward_fill_witness:
  "files ex_fs (price_path ''aapl'' (Some ''prices.csv'')) = Some (PriceCsv ex_prices) \<and>
   aggregate_for_symbol ex_pandas ex_fs ''aapl'' (Some ''prices.csv'') (Some ''news.csv'')
       (Some ''out/aapl.json'') = (ex_fs_after, None) \<and>
   files ex_fs_after (out_path ''aapl'' (Some ''out/aapl.json'')) = Some (JsonDoc ex_history) \<and>
   series_min (price_dates ex_pandas ex_prices) = Some 19358 \<and>
   series_max (price_dates ex_pandas ex_prices) = Some 19360 \<and>
   Some 19358 \<in> set (price_dates ex_pandas ex_prices) \<and>
   Some 19359 \<notin> set (price_dates ex_pandas ex_prices) \<and>
   rec_date (ex_history ! nat (19359 - 19358)) = strftime_ymd 19359 \<and>
   rec_date (ex_history ! nat (19358 - 19358)) = strftime_ymd 19358 \<and>
   rec_market_data (ex_history ! nat (19359 - 19358)) =
     rec_market_data (ex_history ! nat (19358 - 19358))"
proof -
  have p: "Some 19358 \<in> set (price_dates ex_pandas ex_prices)"
    and g: "Some 19359 \<notin> set (price_dates ex_pandas ex_prices)"
    by (simp_all add: ex_price_dates)
  have gap: "\<forall>d'. (19358::int) < d' \<and> d' \<le> 19359 \<longrightarrow>
      Some d' \<notin> set (price_dates ex_pandas ex_prices)"
    by (auto simp: ex_price_dates)
  from forward_fill [OF ex_files(1) ex_run_after ex_files(3) ex_series p _ _ gap]
  show ?thesis
    using ex_files(1,3) ex_run_after ex_series p g by simp
qed

section \<open>Records of the history\<close>

lemma history_day_record:
  assumes "price_daily pd prices = Inr daily"
      and "iterrows_history nbd daily = Inr history"
      and "series_min (price_dates pd prices) = Some s"
      and "series_max (price_dates pd prices) = Some e"
      and "s \<le> d" and "d \<le> e"
  shows "nat (d - s) < length history"
    and "rec_date (history ! nat (d - s)) = strftime_ymd d"
    and "news_headlines (history ! nat (d - s)) = dict_get nbd d"
proof -
  note b = series_bounds [OF assms(3,4)]
  have i: "nat (d - s) < length daily" and f: "fst (daily ! nat (d - s)) = d"
    using price_daily_nth [OF assms(1), of d] assms(5,6) b by simp_all
  show "nat (d - s) < length history"
    using i iterrows_history_length [OF assms(2)] by simp
  show "rec_date (history ! nat (d - s)) = strftime_ymd d"
    using iterrows_history_nth [OF assms(2) i] f by simp
  show "news_headlines (history ! nat (d - s)) = dict_get nbd d"
    using iterrows_history_nth [OF assms(2) i] f by simp
qed

lemma history_record_day:
  assumes "price_daily pd prices = Inr daily"
      and "iterrows_history nbd daily = Inr history"
      and "rec \<in> set history"
  shows "\<exists>d. news_headlines rec = dict_get nbd d"
proof -
  from assms(3) obtain n where n: "n < length history" and r: "rec = history ! n"
    by (auto simp: in_set_conv_nth)
  from n have "n < length daily"
    using iterrows_history_length [OF assms(2)] by simp
  from iterrows_history_nth [OF assms(2) this] r show ?thesis
    by auto
qed

lemma aggregate_for_symbol_tables:
  assumes "files fs (price_path symbol price_csv) = Some (PriceCsv prices)"
      and "files fs (news_path symbol news_csv) = Some (NewsCsv news)"
      and "aggregate_for_symbol pd fs symbol price_csv news_csv out_json = (fs', None)"
      and "files fs' (out_path symbol out_json) = Some (JsonDoc history)"
  shows "\<exists>daily. price_daily pd prices = Inr daily \<and>
           iterrows_history (news_by_date pd news) daily = Inr history"
  using aggregate_for_symbol_None [OF assms(3)] assms(1,2,4) by auto

lemma in_range_entry:
  assumes "price_daily pd prices = Inr daily"
      and "iterrows_history (news_by_date pd news) daily = Inr history"
      and "series_min (price_dates pd prices) = Some s"
      and "series_max (price_dates pd prices) = Some e"
      and "(t, r) \<in> set (surviving_news pd news)"
      and "s \<le> date_only t" and "date_only t \<le> e"
  shows "\<lparr>time = strftime_hms t, headline = Article_title r\<rparr>
           \<in> set (news_headlines (history ! nat (date_only t - s)))"
proof -
  have "\<lparr>time = strftime_hms t, headline = Article_title r\<rparr>
          \<in> set (dict_get (news_by_date pd news) (date_only t))"
    unfolding news_headlines_set using assms(5) by force
  then show ?thesis
    by (simp only: history_day_record(3) [OF assms(1,2,3,4,6,7)])
qed

lemma history_entry_source:
  assumes "price_daily pd prices = Inr daily"
      and "iterrows_history (news_by_date pd news) daily = Inr history"
      and "rec \<in> set history" and "x \<in> set (news_headlines rec)"
  shows "\<exists>j t. j < length news \<and> parse_news_dates pd (map Date news) ! j = Some t \<and>
           x = \<lparr>time = strftime_hms t, headline = Article_title (news ! j)\<rparr>"
proof -
  from history_record_day [OF assms(1,2,3)] obtain d where
    "news_headlines rec = dict_get (news_by_date pd news) d" ..
  with assms(4) obtain t r where
    tr: "(t, r) \<in> set (surviving_news pd news)" and
    x: "x = \<lparr>time = strftime_hms t, headline = Article_title r\<rparr>"
    by (auto simp: news_headlines_set)
  from tr obtain j where "j < length news" "news ! j = r"
    "parse_news_dates pd (map Date news) ! j = Some t"
    by (auto simp: surviving_news_iff)
  with x show ?thesis by blast
qed

section \<open>Headline bucketing\<close>

text \<open>
  C3. As stated the claim fails: a headline that parses but is dated outside the price
  calendar is under no record at all, because the join runs over the calendar days only
  (see the counterexample below). What holds: for every calendar day \<open>d\<close> of the output,
  the \<^verbatim>\<open>news_headlines\<close> of the record of \<open>d\<close> are exactly the surviving headlines whose UTC
  calendar date is \<open>d\<close>, each as often as it occurs among the rows, and they are in
  ascending order of their time-of-day strings. So a surviving headline dated within the
  calendar is under the record of its own UTC date, and under that one only.
\<close>

theorem headline_bucketing:
  assumes "files fs (price_path symbol price_csv) = Some (PriceCsv prices)"
      and "files fs (news_path symbol news_csv) = Some (NewsCsv news)"
      and "aggregate_for_symbol pd fs symbol price_csv news_csv out_json = (fs', None)"
      and "files fs' (out_path symbol out_json) = Some (JsonDoc history)"
      and "series_min (price_dates pd prices) = Some s"
      and "series_max (price_dates pd prices) = Some e"
      and "s \<le> d" and "d \<le> e"
  shows "rec_date (history ! nat (d - s)) = strftime_ymd d \<and>
         mset (news_headlines (history ! nat (d - s))) =
           mset (map (\<lambda>(t, r). \<lparr>time = strftime_hms t, headline = Article_title r\<rparr>)
             (filter (\<lambda>(t, r). date_only t = d) (surviving_news pd news))) \<and>
         sorted (map time (news_headlines (history ! nat (d - s))))"
proof -
  from aggregate_for_symbol_tables [OF assms(1,2,3,4)] obtain daily where
    daily: "price_daily pd prices = Inr daily" and
    h: "iterrows_history (news_by_date pd news) daily = Inr history"
    by blast
  note r = history_day_record [OF daily h assms(5,6,7,8)]
  show ?thesis
    by (simp only: r mset_news_by_date sorted_news_by_date)
qed

lemma ex_surviving_news:
  "surviving_news ex_pandas ex_news =
     [(1672720200000000000, ex_news ! 0), (1672653600000000000, ex_news ! 1),
      (1675332000000000000, ex_news ! 3), (1675414800000000000, ex_news ! 4),
      (1672708500000000000, ex_news ! 5)]"
  by (simp add: surviving_news_def ex_parse_news) (simp add: ex_news_def)

theorem headline_bucketing_witness:
  "files ex_fs (price_path ''aapl'' (Some ''prices.csv'')) = Some (PriceCsv ex_prices) \<and>
   files ex_fs (news_path ''aapl'' (Some ''news.csv'')) = Some (NewsCsv ex_news) \<and>
   aggregate_for_symbol ex_pandas ex_fs ''aapl'' (Some ''prices.csv'') (Some ''news.csv'')
       (Some ''out/aapl.json'') = (ex_fs_after, None) \<and>
   files ex_fs_after (out_path ''aapl'' (Some ''out/aapl.json'')) = Some (JsonDoc ex_history) \<and>
   series_min (price_dates ex_pandas ex_prices) = Some 19358 \<and>
   series_max (price_dates ex_pandas ex_prices) = Some 19360 \<and>
   rec_date (ex_history ! nat (19360 - 19358)) = strftime_ymd 19360 \<and>
   mset (news_headlines (ex_history ! nat (19360 - 19358))) =
     mset (map (\<lambda>(t, r). \<lparr>time = strftime_hms t, headline = Article_title r\<rparr>)
       (filter (\<lambda>(t, r). date_only t = 19360) (surviving_news ex_pandas ex_news))) \<and>
   sorted (map time (news_headlines (ex_history ! nat (19360 - 19358))))"
  using headline_bucketing [OF ex_files(1,2) ex_run_after ex_files(3) ex_series, of 19360]
    ex_files ex_run_after ex_series
  by simp

lemma ex_late_headline:
  "date_only 1675332000000000000 = 19390"
  "strftime_ymd 19390 = ''2023-02-02''"
  "strftime_hms 1675332000000000000 = ''10:00:00''"
  by code_simp+

theorem headline_bucketing_counterexample:
  "aggregate_for_symbol ex_pandas ex_fs ''aapl'' (Some ''prices.csv'') (Some ''news.csv'')
       (Some ''out/aapl.json'') = (ex_fs_after, None) \<and>
   files ex_fs_after (out_path ''aapl'' (Some ''out/aapl.json'')) = Some (JsonDoc ex_history) \<and>
   (1675332000000000000, ex_news ! 3) \<in> set (surviving_news ex_pandas ex_news) \<and>
   strftime_ymd (date_only 1675332000000000000) = ''2023-02-02'' \<and>
   ''2023-02-02'' \<notin> set (map rec_date ex_history) \<and>
   \<lparr>time = strftime_hms 1675332000000000000, headline = Article_title (ex_news ! 3)\<rparr>
     \<notin> set (concat (map news_headlines ex_history))"
proof -
  have "''2023-02-02'' \<notin> set (map rec_date ex_history)"
    by (simp add: ex_history_def)
  moreover have "\<lparr>time = strftime_hms 1675332000000000000, headline = Article_title (ex_news ! 3)\<rparr>
     \<notin> set (concat (map news_headlines ex_history))"
    by (simp add: ex_late_headline ex_history_def ex_news_def)
  ultimately show ?thesis
    using ex_run_after ex_files(3) by (simp add: ex_surviving_news ex_late_headline)
qed

section \<open>Timestamp fallback\<close>

text \<open>
  C4. As stated the claim fails for a row dated outside the price calendar: it survives the
  fallback and still is not in the output (see the counterexample below). What holds, for
  a row \<open>i\<close> that the primary parse rejects, with \<open>k\<close> its position among the rejected rows
  and \<open>generic\<close> the result of the generic parse of those rows: if \<open>generic ! k\<close> is a
  timestamp \<open>t\<close>, the row survives with \<open>t\<close>, and it is in the output, under the record of
  the UTC date of \<open>t\<close>, whenever that date lies within the price calendar; if the generic
  parse gives nothing for it, the row is dropped, and every entry of every record stems
  from another row, one that did parse.
\<close>

theorem timestamp_fallback:
  fixes pd :: pandas and news :: "news_row list" and i :: nat
  defines "col \<equiv> map Date news"
  defines "primary \<equiv> map (to_datetime_cell (to_datetime_primary pd)) col"
  defines "generic \<equiv> to_datetime_generic pd (fallback_rows col primary)"
  defines "k \<equiv> length (filter (\<lambda>p. p = None) (take i primary))"
  assumes "files fs (price_path symbol price_csv) = Some (PriceCsv prices)"
      and "files fs (news_path symbol news_csv) = Some (NewsCsv news)"
      and "aggregate_for_symbol pd fs symbol price_csv news_csv out_json = (fs', None)"
      and "files fs' (out_path symbol out_json) = Some (JsonDoc history)"
      and "series_min (price_dates pd prices) = Some s"
      and "series_max (price_dates pd prices) = Some e"
      and "i < length news"
      and "to_datetime_cell (to_datetime_primary pd) (Date (news ! i)) = None"
  shows "(\<forall>t. k < length generic \<and> generic ! k = Some t \<longrightarrow>
            (t, news ! i) \<in> set (surviving_news pd news) \<and>
            (s \<le> date_only t \<and> date_only t \<le> e \<longrightarrow>
               \<lparr>time = strftime_hms t, headline = Article_title (news ! i)\<rparr>
                 \<in> set (news_headlines (history ! nat (date_only t - s))))) \<and>
         (length generic \<le> k \<or> generic ! k = None \<longrightarrow>
            parse_news_dates pd col ! i = None \<and>
            (\<forall>rec \<in> set history. \<forall>x \<in> set (news_headlines rec).
               \<exists>j t. j < length news \<and> j \<noteq> i \<and> parse_news_dates pd col ! j = Some t \<and>
                 x = \<lparr>time = strftime_hms t, headline = Article_title (news ! j)\<rparr>))"
proof -
  from aggregate_for_symbol_tables [OF assms(5,6,7,8)] obtain daily where
    daily: "price_daily pd prices = Inr daily" and
    h: "iterrows_history (news_by_date pd news) daily = Inr history"
    by blast
  have i: "i < length col"
    using assms(11) by (simp add: col_def)
  have p: "to_datetime_cell (to_datetime_primary pd) (col ! i) = None"
    using assms(11,12) by (simp add: col_def)
  have nth: "parse_news_dates pd col ! i = (if k < length generic then generic ! k else None)"
    using parse_news_dates_nth [OF i, of pd] p
    by (simp add: Let_def k_def generic_def primary_def)
  have a: "(t, news ! i) \<in> set (surviving_news pd news) \<and>
            (s \<le> date_only t \<and> date_only t \<le> e \<longrightarrow>
               \<lparr>time = strftime_hms t, headline = Article_title (news ! i)\<rparr>
                 \<in> set (news_headlines (history ! nat (date_only t - s))))"
    if "k < length generic" and "generic ! k = Some t" for t
  proof -
    from that nth have "parse_news_dates pd (map Date news) ! i = Some t"
      by (simp add: col_def)
    with assms(11) have surv: "(t, news ! i) \<in> set (surviving_news pd news)"
      unfolding surviving_news_iff by blast
    then show ?thesis
      using in_range_entry [OF daily h assms(9,10)] by blast
  qed
  have b: "parse_news_dates pd col ! i = None \<and>
            (\<forall>rec \<in> set history. \<forall>x \<in> set (news_headlines rec).
               \<exists>j t. j < length news \<and> j \<noteq> i \<and> parse_news_dates pd col ! j = Some t \<and>
                 x = \<lparr>time = strftime_hms t, headline = Article_title (news ! j)\<rparr>)"
    if "length generic \<le> k \<or> generic ! k = None"
  proof -
    from that nth have none: "parse_news_dates pd col ! i = None"
      by auto
    have "\<exists>j t. j < length news \<and> j \<noteq> i \<and> parse_news_dates pd col ! j = Some t \<and>
                 x = \<lparr>time = strftime_hms t, headline = Article_title (news ! j)\<rparr>"
      if "rec \<in> set history" and "x \<in> set (news_headlines rec)" for rec x
    proof -
      from history_entry_source [OF daily h that] obtain j t where
        j: "j < length news" "parse_news_dates pd col ! j = Some t"
          "x = \<lparr>time = strftime_hms t, headline = Article_title (news ! j)\<rparr>"
        unfolding col_def by blast
      with none have "j \<noteq> i" by auto
      with j show ?thesis by blast
    qed
    with none show ?thesis by blast
  qed
  from a b show ?thesis by blast
qed

lemma ex_primary:
  "map (to_datetime_cell (to_datetime_primary ex_pandas)) (map Date ex_news) =
     [Some 1672720200000000000, None, None, Some 1675332000000000000, None,
      Some 1672708500000000000]"
  by code_simp

lemma ex_generic:
  "to_datetime_generic ex_pandas
     (fallback_rows (map Date ex_news)
        (map (to_datetime_cell (to_datetime_primary ex_pandas)) (map Date ex_news))) =
     [Some 1672653600000000000, None, Some 1675414800000000000]"
  by code_simp

lemma ex_primary_nth:
  "to_datetime_cell (to_datetime_primary ex_pandas) (Date (ex_news ! 1)) = None"
  "to_datetime_cell (to_datetime_primary ex_pandas) (Date (ex_news ! 2)) = None"
  "to_datetime_cell (to_datetime_primary ex_pandas) (Date (ex_news ! 4)) = None"
  by code_simp+

lemma ex_fallback_headline:
  "date_only 1672653600000000000 = 19359"
  "strftime_hms 1672653600000000000 = ''10:00:00''"
  "strftime_hms 1675414800000000000 = ''09:00:00''"
  by code_simp+

lemma ex_news_length: "length ex_news = 6"
  by (simp add: ex_news_def)

theorem timestamp_fallback_witness:
  "files ex_fs (price_path ''aapl'' (Some ''prices.csv'')) = Some (PriceCsv ex_prices) \<and>
   files ex_fs (news_path ''aapl'' (Some ''news.csv'')) = Some (NewsCsv ex_news) \<and>
   aggregate_for_symbol ex_pandas ex_fs ''aapl'' (Some ''prices.csv'') (Some ''news.csv'')
       (Some ''out/aapl.json'') = (ex_fs_after, None) \<and>
   files ex_fs_after (out_path ''aapl'' (Some ''out/aapl.json'')) = Some (JsonDoc ex_history) \<and>
   series_min (price_dates ex_pandas ex_prices) = Some 19358 \<and>
   series_max (price_dates ex_pandas ex_prices) = Some 19360 \<and>
   1 < length ex_news \<and> 2 < length ex_news \<and>
   to_datetime_cell (to_datetime_primary ex_pandas) (Date (ex_news ! 1)) = None \<and>
   to_datetime_cell (to_datetime_primary ex_pandas) (Date (ex_news ! 2)) = None \<and>
   (1672653600000000000, ex_news ! 1) \<in> set (surviving_news ex_pandas ex_news) \<and>
   \<lparr>time = strftime_hms 1672653600000000000, headline = Article_title (ex_news ! 1)\<rparr>
     \<in> set (news_headlines (ex_history ! nat (date_only 1672653600000000000 - 19358))) \<and>
   parse_news_dates ex_pandas (map Date ex_news) ! 2 = None"
proof -
  have l: "1 < length ex_news" "2 < length ex_news"
    by (simp_all add: ex_news_length)
  note t1 = timestamp_fallback [OF ex_files(1,2) ex_run_after ex_files(3) ex_series l(1)
      ex_primary_nth(1)]
  note t2 = timestamp_fallback [OF ex_files(1,2) ex_run_after ex_files(3) ex_series l(2)
      ex_primary_nth(2)]
  have a: "(1672653600000000000, ex_news ! 1) \<in> set (surviving_news ex_pandas ex_news) \<and>
     \<lparr>time = strftime_hms 1672653600000000000, headline = Article_title (ex_news ! 1)\<rparr>
       \<in> set (news_headlines (ex_history ! nat (date_only 1672653600000000000 - 19358)))"
    using t1 [unfolded ex_generic, unfolded ex_primary] by (simp add: ex_fallback_headline)
  have b: "parse_news_dates ex_pandas (map Date ex_news) ! 2 = None"
    using t2 [unfolded ex_generic, unfolded ex_primary] by simp
  show ?thesis
    using ex_files ex_run_after ex_series l ex_primary_nth(1,2) a b by simp
qed

theorem timestamp_fallback_counterexample:
  "to_datetime_cell (to_datetime_primary ex_pandas) (Date (ex_news ! 4)) = None \<and>
   length (filter (\<lambda>p. p = None)
     (take 4 (map (to_datetime_cell (to_datetime_primary ex_pandas)) (map Date ex_news)))) = 2 \<and>
   to_datetime_generic ex_pandas
     (fallback_rows (map Date ex_news)
        (map (to_datetime_cell (to_datetime_primary ex_pandas)) (map Date ex_news))) ! 2 =
     Some 1675414800000000000 \<and>
   aggregate_for_symbol ex_pandas ex_fs ''aapl'' (Some ''prices.csv'') (Some ''news.csv'')
       (Some ''out/aapl.json'') = (ex_fs_after, None) \<and>
   files ex_fs_after (out_path ''aapl'' (Some ''out/aapl.json'')) = Some (JsonDoc ex_history) \<and>
   \<lparr>time = strftime_hms 1675414800000000000, headline = Article_title (ex_news ! 4)\<rparr>
     \<notin> set (concat (map news_headlines ex_history))"
proof -
  have "\<lparr>time = strftime_hms 1675414800000000000, headline = Article_title (ex_news ! 4)\<rparr>
     \<notin> set (concat (map news_headlines ex_history))"
    by (simp add: ex_fallback_headline ex_history_def ex_news_def)
  then show ?thesis
    using ex_run_after ex_files(3) ex_primary_nth(3)
    unfolding ex_generic unfolding ex_primary by simp
qed

section \<open>The example of a zone west of UTC\<close>

lemma est_parse:
  assumes "map_of tz ''EST'' = Some (- 18000)"
  shows "strptime_primary tz ''2023-01-02 23:30:00 EST'' = Some 1672720200000000000"
proof -
  have a: "strptime_ymd_hms ''2023-01-02 23:30:00 EST'' = Some (1672702200, '' EST'')"
    by code_simp
  have b: "skip_space '' EST'' = Some ''EST''"
    by code_simp
  have c: "in_bounds 1672720200000000000"
    by code_simp
  show ?thesis
    using assms c by (simp add: strptime_primary_def a b ns_per_second_def)
qed

lemma est_fields:
  "date_only 1672720200000000000 = 19360"
  "strftime_hms 1672720200000000000 = ''04:30:00''"
  "days_from_civil 2023 1 3 = 19360"
  "strftime_ymd 19360 = ''2023-01-03''"
  by code_simp+

text \<open>
  C5. With the primary format read as pandas reads it and \<^verbatim>\<open>EST\<close> known as the zone five
  hours west of UTC, a headline row stamped \<^verbatim>\<open>2023-01-02 23:30:00 EST\<close> is, in every
  successful run whose price calendar covers 2023-01-03, under the record dated
  \<^verbatim>\<open>2023-01-03\<close> with time \<^verbatim>\<open>04:30:00\<close>: the instant is converted to UTC before it is
  split into date and time of day.
\<close>

theorem est_headline_example:
  assumes "files fs (price_path symbol price_csv) = Some (PriceCsv prices)"
      and "files fs (news_path symbol news_csv) = Some (NewsCsv news)"
      and "aggregate_for_symbol pd fs symbol price_csv news_csv out_json = (fs', None)"
      and "files fs' (out_path symbol out_json) = Some (JsonDoc history)"
      and "series_min (price_dates pd prices) = Some s"
      and "series_max (price_dates pd prices) = Some e"
      and "to_datetime_primary pd = strptime_primary tz"
      and "map_of tz ''EST'' = Some (- 18000)"
      and "i < length news"
      and "Date (news ! i) = Val ''2023-01-02 23:30:00 EST''"
      and "s \<le> days_from_civil 2023 1 3" and "days_from_civil 2023 1 3 \<le> e"
  shows "rec_date (history ! nat (days_from_civil 2023 1 3 - s)) = ''2023-01-03'' \<and>
         \<lparr>time = ''04:30:00'', headline = Article_title (news ! i)\<rparr>
           \<in> set (news_headlines (history ! nat (days_from_civil 2023 1 3 - s)))"
proof -
  from aggregate_for_symbol_tables [OF assms(1,2,3,4)] obtain daily where
    daily: "price_daily pd prices = Inr daily" and
    h: "iterrows_history (news_by_date pd news) daily = Inr history"
    by blast
  have "to_datetime_cell (to_datetime_primary pd) (map Date news ! i) = Some 1672720200000000000"
    using assms(7,9,10) est_parse [OF assms(8)] by (simp add: to_datetime_cell_def)
  then have "parse_news_dates pd (map Date news) ! i = Some 1672720200000000000"
    using parse_news_dates_nth [of i "map Date news" pd] assms(9) by simp
  with assms(9) have surv: "(1672720200000000000, news ! i) \<in> set (surviving_news pd news)"
    unfolding surviving_news_iff by blast
  have "\<lparr>time = strftime_hms 1672720200000000000, headline = Article_title (news ! i)\<rparr>
          \<in> set (news_headlines (history ! nat (date_only 1672720200000000000 - s)))"
    using assms(11,12) by (intro in_range_entry [OF daily h assms(5,6) surv]) (simp_all add: est_fields)
  moreover have "rec_date (history ! nat (19360 - s)) = strftime_ymd 19360"
    using assms(11,12) by (intro history_day_record(2) [OF daily h assms(5,6)]) (simp_all add: est_fields)
  ultimately show ?thesis
    by (simp add: est_fields)
qed

lemma ex_primary_parser: "to_datetime_primary ex_pandas = strptime_primary fixed_zones"
  by (simp add: ex_pandas_def pandas_with_def)

lemma ex_est_zone: "map_of fixed_zones ''EST'' = Some (- 18000)"
  by (simp add: fixed_zones_def)

theorem est_headline_example_witness:
  "files ex_fs (price_path ''aapl'' (Some ''prices.csv'')) = Some (PriceCsv ex_prices) \<and>
   files ex_fs (news_path ''aapl'' (Some ''news.csv'')) = Some (NewsCsv ex_news) \<and>
   aggregate_for_symbol ex_pandas ex_fs ''aapl'' (Some ''prices.csv'') (Some ''news.csv'')
       (Some ''out/aapl.json'') = (ex_fs_after, None) \<and>
   files ex_fs_after (out_path ''aapl'' (Some ''out/aapl.json'')) = Some (JsonDoc ex_history) \<and>
   series_min (price_dates ex_pandas ex_prices) = Some 19358 \<and>
   series_max (price_dates ex_pandas ex_prices) = Some 19360 \<and>
   to_datetime_primary ex_pandas = strptime_primary fixed_zones \<and>
   map_of fixed_zones ''EST'' = Some (- 18000) \<and>
   0 < length ex_news \<and>
   Date (ex_news ! 0) = Val ''2023-01-02 23:30:00 EST'' \<and>
   19358 \<le> days_from_civil 2023 1 3 \<and> days_from_civil 2023 1 3 \<le> 19360 \<and>
   rec_date (ex_history ! nat (days_from_civil 2023 1 3 - 19358)) = ''2023-01-03'' \<and>
   \<lparr>time = ''04:30:00'', headline = Article_title (ex_news ! 0)\<rparr>
     \<in> set (news_headlines (ex_history ! nat (days_from_civil 2023 1 3 - 19358)))"
proof -
  have l: "0 < length ex_news" and d: "Date (ex_news ! 0) = Val ''2023-01-02 23:30:00 EST''"
    by (simp_all add: ex_news_def)
  have r: "19358 \<le> days_from_civil 2023 1 3" "days_from_civil 2023 1 3 \<le> 19360"
    by (simp_all add: est_fields)
  from est_headline_example [OF ex_files(1,2) ex_run_after ex_files(3) ex_series
      ex_primary_parser ex_est_zone l d r]
  show ?thesis
    using ex_files ex_run_after ex_series ex_primary_parser ex_est_zone l d r by simp
qed

section \<open>Errors of the price pipeline\<close>

lemma ex_fs_with_files:
  "files (ex_fs_with prices) (price_path ''aapl'' (Some ''prices.csv'')) = Some (PriceCsv prices)"
  "files (ex_fs_with prices) (news_path ''aapl'' (Some ''news.csv'')) = Some (NewsCsv ex_news)"
  by (simp_all add: ex_paths ex_fs_with_def)

text \<open>
  C6. If no row of the price table has a date that parses under the strict format, the
  call raises: \<^verbatim>\<open>min()\<close> and \<^verbatim>\<open>max()\<close> are \<^verbatim>\<open>NaT\<close> and \<^verbatim>\<open>pd.date_range\<close> refuses them with
  \<^verbatim>\<open>ValueError\<close> (or the headline file is missing, and reading it has already raised
  \<^verbatim>\<open>FileNotFoundError\<close>). The file system is left as it was: no output is written.
\<close>

theorem no_valid_price_row:
  assumes "files fs (price_path symbol price_csv) = Some (PriceCsv prices)"
      and "list_all (\<lambda>r. to_datetime_cell (to_datetime_ymd pd) (date r) = None) prices"
  shows "aggregate_for_symbol pd fs symbol price_csv news_csv out_json =
           (fs, Some (if files fs (news_path symbol news_csv) = None
                      then FileNotFoundError else ValueError))"
proof -
  have "set (dropna_dates (price_dates pd prices)) = {}"
    using assms(2) by (auto simp: set_dropna_dates price_dates_def list_all_iff)
  then have "price_daily pd prices = Inl ValueError"
    by (intro price_daily_no_valid) simp
  with assms(1) show ?thesis
    by (rule aggregate_for_symbol_price_error)
qed

lemma ex_undated_dates: "price_dates ex_pandas ex_undated_prices = [None, None]"
  by code_simp

theorem no_valid_price_row_witness:
  "files (ex_fs_with ex_undated_prices) (price_path ''aapl'' (Some ''prices.csv'')) =
     Some (PriceCsv ex_undated_prices) \<and>
   list_all (\<lambda>r. to_datetime_cell (to_datetime_ymd ex_pandas) (date r) = None) ex_undated_prices \<and>
   aggregate_for_symbol ex_pandas (ex_fs_with ex_undated_prices) ''aapl'' (Some ''prices.csv'')
       (Some ''news.csv'') (Some ''out/aapl.json'') =
     (ex_fs_with ex_undated_prices, Some ValueError)"
proof -
  have a: "list_all (\<lambda>r. to_datetime_cell (to_datetime_ymd ex_pandas) (date r) = None)
      ex_undated_prices"
    by code_simp
  from no_valid_price_row [OF ex_fs_with_files(1) a, of "Some ''news.csv''" "Some ''out/aapl.json''"]
  show ?thesis
    using a by (simp add: ex_fs_with_files)
qed

text \<open>
  C9. If two rows of the price table have the same parseable date, the call raises:
  the index has a repeated label and \<^verbatim>\<open>reindex\<close> refuses it with \<^verbatim>\<open>ValueError\<close> (or the
  headline file is missing, and reading it has already raised \<^verbatim>\<open>FileNotFoundError\<close>).
  The file system is left as it was: no output is written.
\<close>

theorem duplicate_price_date:
  assumes "files fs (price_path symbol price_csv) = Some (PriceCsv prices)"
      and "i < j" and "j < length prices"
      and "price_dates pd prices ! i = Some d"
      and "price_dates pd prices ! j = Some d"
  shows "aggregate_for_symbol pd fs symbol price_csv news_csv out_json =
           (fs, Some (if files fs (news_path symbol news_csv) = None
                      then FileNotFoundError else ValueError))"
proof -
  have "length (price_dates pd prices) = length prices"
    by (simp add: price_dates_def)
  with assms(2,3) have "i < length (price_dates pd prices)" "j < length (price_dates pd prices)"
    by simp_all
  with assms(2,4,5) have "\<not> distinct (price_dates pd prices)"
    using nth_eq_iff_index_eq [of "price_dates pd prices" i j] by auto
  then have "price_daily pd prices = Inl ValueError"
    by (rule price_daily_duplicate)
  with assms(1) show ?thesis
    by (rule aggregate_for_symbol_price_error)
qed

lemma ex_duplicate_dates:
  "price_dates ex_pandas ex_duplicate_prices = [Some 19358, Some 19360, Some 19360]"
  by code_simp

theorem duplicate_price_date_witness:
  "files (ex_fs_with ex_duplicate_prices) (price_path ''aapl'' (Some ''prices.csv'')) =
     Some (PriceCsv ex_duplicate_prices) \<and>
   (1::nat) < 2 \<and> 2 < length ex_duplicate_prices \<and>
   price_dates ex_pandas ex_duplicate_prices ! 1 = Some 19360 \<and>
   price_dates ex_pandas ex_duplicate_prices ! 2 = Some 19360 \<and>
   aggregate_for_symbol ex_pandas (ex_fs_with ex_duplicate_prices) ''aapl'' (Some ''prices.csv'')
       (Some ''news.csv'') (Some ''out/aapl.json'') =
     (ex_fs_with ex_duplicate_prices, Some ValueError)"
proof -
  have l: "2 < length ex_duplicate_prices"
    by (simp add: ex_duplicate_prices_def ex_prices_def)
  have d: "price_dates ex_pandas ex_duplicate_prices ! 1 = Some 19360"
    "price_dates ex_pandas ex_duplicate_prices ! 2 = Some 19360"
    by (simp_all add: ex_duplicate_dates)
  have o: "(1::nat) < 2" by simp
  from duplicate_price_date [OF ex_fs_with_files(1) o l d,
      of "Some ''news.csv''" "Some ''out/aapl.json''"]
  show ?thesis
    using l d by (simp add: ex_fs_with_files)
qed

lemma price_dates_filter:
  "price_dates pd (filter (has_date pd) rows) = filter (\<lambda>d. d \<noteq> None) (price_dates pd rows)"
  by (induction rows) (auto simp: price_dates_def has_date_def)

lemma dropna_dates_filter: "dropna_dates (filter (\<lambda>d. d \<noteq> None) col) = dropna_dates col"
  by (induction col rule: dropna_dates.induct) auto

lemma distinct_one_NaT:
  assumes "length (filter (\<lambda>d. d = None) col) \<le> 1"
  shows "distinct col \<longleftrightarrow> distinct (filter (\<lambda>d. d \<noteq> None) col)"
  using assms
proof (induction col)
  case Nil
  then show ?case by simp
next
  case (Cons x col)
  show ?case
  proof (cases x)
    case None
    with Cons.prems have "filter (\<lambda>d. d = None) col = []"
      by simp
    then have "None \<notin> set col"
      by (auto simp: filter_empty_conv)
    with None Cons show ?thesis by simp
  next
    case (Some d)
    with Cons show ?thesis by simp
  qed
qed

lemma raw_cells_filter:
  "raw_cells pd (filter (has_date pd) rows) d = raw_cells pd rows d"
  by (induction rows) (auto simp: raw_cells_def parse_price_dates_def has_date_def)

text \<open>With at most one row whose date does not parse, the daily frame is that of the table
  without the row: the row is dropped silently.\<close>

lemma single_undated_row_dropped:
  assumes "length (filter (\<lambda>d. d = None) (price_dates pd rows)) \<le> 1"
  shows "price_daily pd rows = price_daily pd (filter (has_date pd) rows)"
proof -
  let ?kept = "filter (has_date pd) rows"
  have v: "dropna_dates (price_dates pd ?kept) = dropna_dates (price_dates pd rows)"
    by (simp only: price_dates_filter dropna_dates_filter)
  have d: "distinct (price_dates pd ?kept) \<longleftrightarrow> distinct (price_dates pd rows)"
    using distinct_one_NaT [OF assms] by (simp only: price_dates_filter)
  show ?thesis
  proof (cases "dropna_dates (price_dates pd rows) = []")
    case True
    with v show ?thesis
      by (simp add: price_daily_no_valid)
  next
    case ne: False
    show ?thesis
    proof (cases "distinct (price_dates pd rows)")
      case True
      with ne v d show ?thesis
        by (simp add: price_daily_ok raw_cells_filter)
    next
      case False
      with d show ?thesis
        by (simp add: price_daily_duplicate)
    qed
  qed
qed

lemma ex_two_undated_dates:
  "price_dates ex_pandas ex_two_undated_prices = [Some 19358, Some 19360, None, None]"
  by code_simp

text \<open>
  C8. The claim says that price rows whose date does not parse are dropped silently
  whenever some row has a valid date. The price path coerces such dates to \<^verbatim>\<open>NaT\<close> but,
  unlike the headline path, never drops them; with two of them the index has the label
  \<^verbatim>\<open>NaT\<close> twice and \<^verbatim>\<open>reindex\<close> raises. So the claim holds for a table with one such row,
  as the lemma above shows, and fails from two on. The run below has two valid rows and
  two rows whose date does not parse: it ends in \<^verbatim>\<open>ValueError\<close> and writes nothing.
\<close>

theorem two_undated_rows_raise:
  "aggregate_for_symbol ex_pandas (ex_fs_with ex_two_undated_prices) ''aapl''
       (Some ''prices.csv'') (Some ''news.csv'') (Some ''out/aapl.json'') =
     (ex_fs_with ex_two_undated_prices, Some ValueError)"
proof -
  have "\<not> distinct (price_dates ex_pandas ex_two_undated_prices)"
    by (simp add: ex_two_undated_dates)
  then have "price_daily ex_pandas ex_two_undated_prices = Inl ValueError"
    by (rule price_daily_duplicate)
  from aggregate_for_symbol_price_error [OF ex_fs_with_files(1) this]
  show ?thesis
    by (simp add: ex_fs_with_files)
qed

section \<open>Determinism\<close>

lemma aggregate_for_symbol_write:
  assumes "files fs (price_path symbol price_csv) = Some (PriceCsv prices)"
      and "files fs (news_path symbol news_csv) = Some (NewsCsv news)"
      and "price_daily pd prices = Inr daily"
      and "iterrows_history (news_by_date pd news) daily = Inr history"
  shows "aggregate_for_symbol pd fs symbol price_csv news_csv out_json =
           write_output fs (out_path symbol out_json) history"
  using assms by (simp add: aggregate_for_symbol_def read_csv_def)

lemma write_output_again:
  assumes "write_output fs path history = (fs', None)"
  shows "write_output fs' path history = (fs', None)"
proof (cases "dirname path = []")
  case True
  with assms have "path \<notin> dirs fs" and "fs' = fs\<lparr>files := (files fs)(path \<mapsto> JsonDoc history)\<rparr>"
    by (auto simp: write_output_def write_json_def split: if_splits)
  with True show ?thesis
    by (simp add: write_output_def write_json_def)
next
  case False
  with assms have f: "files fs (dirname path) = None"
    and d: "path \<notin> insert (dirname path) (dirs fs)"
    and fs': "fs' = fs\<lparr>dirs := insert (dirname path) (dirs fs),
                        files := (files fs)(path \<mapsto> JsonDoc history)\<rparr>"
    by (auto simp: write_output_def write_json_def makedirs_def Let_def split: if_splits)
  from d have "dirname path \<noteq> path" by auto
  with False f d fs' show ?thesis
    by (simp add: write_output_def write_json_def makedirs_def Let_def insert_absorb)
qed

lemma parse_price_dates_zip:
  "parse_price_dates pd rows = zip (price_dates pd rows) (map cells_of rows)"
  by (induction rows) (simp_all add: parse_price_dates_def price_dates_def)

lemma price_daily_parsers:
  assumes "price_dates pd2 rows = price_dates pd1 rows"
  shows "price_daily pd2 rows = price_daily pd1 rows"
  using assms by (simp add: price_daily_def parse_price_dates_zip)

lemma news_by_date_parsers:
  assumes "parse_news_dates pd2 (map Date news) = parse_news_dates pd1 (map Date news)"
  shows "news_by_date pd2 news = news_by_date pd1 news"
  using assms by (simp add: news_by_date_def surviving_news_def)

lemma aggregate_for_symbol_parsers:
  assumes "files fs (price_path symbol price_csv) = Some (PriceCsv prices)"
      and "files fs (news_path symbol news_csv) = Some (NewsCsv news)"
      and "price_dates pd2 prices = price_dates pd1 prices"
      and "parse_news_dates pd2 (map Date news) = parse_news_dates pd1 (map Date news)"
  shows "aggregate_for_symbol pd2 fs symbol price_csv news_csv out_json =
           aggregate_for_symbol pd1 fs symbol price_csv news_csv out_json"
  using assms(1,2)
  by (simp add: aggregate_for_symbol_def read_csv_def price_daily_parsers [OF assms(3)]
        news_by_date_parsers [OF assms(4)] split: sum.splits)

text \<open>
  C7. As stated the claim fails: the library resolves a timestamp such as \<^verbatim>\<open>now\<close> against
  the clock, so two runs on the same files can write different documents (see the
  counterexample below). What holds: two successful runs with the same arguments, on file
  systems that hold the same price and headline files, in which the library gives the
  same parsed dates for the price column and for the headline column, write the same
  document at the output path, whatever else the file systems hold and whatever was at
  the output path before; the JSON text is \<^verbatim>\<open>json.dump\<close> of that document and of nothing
  else, so it is the same text. And when the output path is neither input path, the
  second run on the file system the first run left succeeds and leaves it unchanged.
\<close>

theorem deterministic_output:
  assumes "files fs1 (price_path symbol price_csv) = Some (PriceCsv prices)"
      and "files fs1 (news_path symbol news_csv) = Some (NewsCsv news)"
      and "files fs2 (price_path symbol price_csv) = files fs1 (price_path symbol price_csv)"
      and "files fs2 (news_path symbol news_csv) = files fs1 (news_path symbol news_csv)"
      and "price_dates pd2 prices = price_dates pd1 prices"
      and "parse_news_dates pd2 (map Date news) = parse_news_dates pd1 (map Date news)"
      and "aggregate_for_symbol pd1 fs1 symbol price_csv news_csv out_json = (fs1', None)"
      and "aggregate_for_symbol pd2 fs2 symbol price_csv news_csv out_json = (fs2', None)"
  shows "files fs2' (out_path symbol out_json) = files fs1' (out_path symbol out_json) \<and>
         (\<exists>history. files fs1' (out_path symbol out_json) = Some (JsonDoc history)) \<and>
         (out_path symbol out_json \<noteq> price_path symbol price_csv \<and>
          out_path symbol out_json \<noteq> news_path symbol news_csv \<longrightarrow>
            aggregate_for_symbol pd2 fs1' symbol price_csv news_csv out_json = (fs1', None))"
proof -
  from aggregate_for_symbol_None [OF assms(7)] assms(1,2) obtain daily history where
    daily: "price_daily pd1 prices = Inr daily" and
    h: "iterrows_history (news_by_date pd1 news) daily = Inr history" and
    out1: "files fs1' = (files fs1)(out_path symbol out_json \<mapsto> JsonDoc history)"
    by auto
  have p2: "files fs2 (price_path symbol price_csv) = Some (PriceCsv prices)"
    and n2: "files fs2 (news_path symbol news_csv) = Some (NewsCsv news)"
    using assms(1,2,3,4) by simp_all
  have "aggregate_for_symbol pd1 fs2 symbol price_csv news_csv out_json = (fs2', None)"
    using aggregate_for_symbol_parsers [OF p2 n2 assms(5,6), of out_json] assms(8) by simp
  from aggregate_for_symbol_None [OF this] p2 n2 daily h
  have out2: "files fs2' = (files fs2)(out_path symbol out_json \<mapsto> JsonDoc history)"
    by auto
  have w: "write_output fs1 (out_path symbol out_json) history = (fs1', None)"
    using aggregate_for_symbol_write [OF assms(1,2) daily h, of out_json] assms(7) by simp
  have again: "aggregate_for_symbol pd2 fs1' symbol price_csv news_csv out_json = (fs1', None)"
    if "out_path symbol out_json \<noteq> price_path symbol price_csv"
      and "out_path symbol out_json \<noteq> news_path symbol news_csv"
  proof -
    have p': "files fs1' (price_path symbol price_csv) = Some (PriceCsv prices)"
      and n': "files fs1' (news_path symbol news_csv) = Some (NewsCsv news)"
      using that assms(1,2) by (simp_all add: out1)
    have "aggregate_for_symbol pd1 fs1' symbol price_csv news_csv out_json = (fs1', None)"
      using aggregate_for_symbol_write [OF p' n' daily h, of out_json] write_output_again [OF w]
      by simp
    then show ?thesis
      by (simp only: aggregate_for_symbol_parsers [OF p' n' assms(5,6)])
  qed
  from out1 out2 again show ?thesis by simp
qed

lemma ex_paths_differ:
  "out_path ''aapl'' (Some ''out/aapl.json'') \<noteq> price_path ''aapl'' (Some ''prices.csv'')"
  "out_path ''aapl'' (Some ''out/aapl.json'') \<noteq> news_path ''aapl'' (Some ''news.csv'')"
  by (simp_all add: ex_paths)

lemma ex_clock_price_dates:
  "price_dates (pandas_at clock tz) rows = price_dates (pandas_with tz) rows"
  by (simp add: price_dates_def pandas_at_def pandas_with_def)

lemma ex_clock_parse_news:
  "parse_news_dates (pandas_at 1700000000000000000 fixed_zones) (map Date ex_news) =
     parse_news_dates ex_pandas (map Date ex_news)"
  by code_simp

theorem deterministic_output_witness:
  "files ex_fs (price_path ''aapl'' (Some ''prices.csv'')) = Some (PriceCsv ex_prices) \<and>
   files ex_fs (news_path ''aapl'' (Some ''news.csv'')) = Some (NewsCsv ex_news) \<and>
   files ex_fs_after (price_path ''aapl'' (Some ''prices.csv'')) =
     files ex_fs (price_path ''aapl'' (Some ''prices.csv'')) \<and>
   files ex_fs_after (news_path ''aapl'' (Some ''news.csv'')) =
     files ex_fs (news_path ''aapl'' (Some ''news.csv'')) \<and>
   price_dates (pandas_at 1700000000000000000 fixed_zones) ex_prices =
     price_dates ex_pandas ex_prices \<and>
   parse_news_dates (pandas_at 1700000000000000000 fixed_zones) (map Date ex_news) =
     parse_news_dates ex_pandas (map Date ex_news) \<and>
   aggregate_for_symbol ex_pandas ex_fs ''aapl'' (Some ''prices.csv'') (Some ''news.csv'')
       (Some ''out/aapl.json'') = (ex_fs_after, None) \<and>
   aggregate_for_symbol (pandas_at 1700000000000000000 fixed_zones) ex_fs_after ''aapl''
       (Some ''prices.csv'') (Some ''news.csv'') (Some ''out/aapl.json'') = (ex_fs_after, None) \<and>
   files ex_fs_after (out_path ''aapl'' (Some ''out/aapl.json'')) = Some (JsonDoc ex_history)"
proof -
  let ?pd2 = "pandas_at 1700000000000000000 fixed_zones"
  have same: "files ex_fs_after (price_path ''aapl'' (Some ''prices.csv'')) =
       files ex_fs (price_path ''aapl'' (Some ''prices.csv''))"
    "files ex_fs_after (news_path ''aapl'' (Some ''news.csv'')) =
       files ex_fs (news_path ''aapl'' (Some ''news.csv''))"
    by (simp_all add: ex_paths ex_fs_after_def)
  have pd: "price_dates ?pd2 ex_prices = price_dates ex_pandas ex_prices"
    by (simp add: ex_clock_price_dates ex_pandas_def)
  have first: "aggregate_for_symbol ?pd2 ex_fs ''aapl'' (Some ''prices.csv'') (Some ''news.csv'')
       (Some ''out/aapl.json'') = (ex_fs_after, None)"
    using aggregate_for_symbol_parsers [OF ex_files(1,2) pd ex_clock_parse_news] ex_run_after
    by simp
  from deterministic_output [OF ex_files(1,2) refl refl pd ex_clock_parse_news ex_run_after first]
    ex_paths_differ
  have again: "aggregate_for_symbol ?pd2 ex_fs_after ''aapl'' (Some ''prices.csv'')
       (Some ''news.csv'') (Some ''out/aapl.json'') = (ex_fs_after, None)"
    by simp
  from deterministic_output [OF ex_files(1,2) same pd ex_clock_parse_news ex_run_after again]
  show ?thesis
    using ex_files same pd ex_clock_parse_news ex_run_after again by simp
qed

lemma ex_live_build:
  "build_history (pandas_at 1672653600000000000 fixed_zones) ex_prices ex_live_news =
     Inr (ex_live_history ''10:00:00'')"
  "build_history (pandas_at 1672653601000000000 fixed_zones) ex_prices ex_live_news =
     Inr (ex_live_history ''10:00:01'')"
  by code_simp+

lemma ex_live_run:
  assumes "build_history pd ex_prices ex_live_news = Inr (ex_live_history t)"
  shows "aggregate_for_symbol pd ex_live_fs ''aapl'' (Some ''prices.csv'') (Some ''news.csv'')
       (Some ''out/aapl.json'') = (ex_live_fs_after t, None)"
  using assms
  by (auto simp: aggregate_for_symbol_def ex_paths read_csv_def ex_live_fs_def build_history_def
        write_output_def ex_dirname makedirs_def write_json_def Let_def ex_live_fs_after_def
        split: sum.splits)

theorem deterministic_output_counterexample:
  "aggregate_for_symbol (pandas_at 1672653600000000000 fixed_zones) ex_live_fs ''aapl''
       (Some ''prices.csv'') (Some ''news.csv'') (Some ''out/aapl.json'') =
     (ex_live_fs_after ''10:00:00'', None) \<and>
   aggregate_for_symbol (pandas_at 1672653601000000000 fixed_zones) ex_live_fs ''aapl''
       (Some ''prices.csv'') (Some ''news.csv'') (Some ''out/aapl.json'') =
     (ex_live_fs_after ''10:00:01'', None) \<and>
   files (ex_live_fs_after ''10:00:00'') (out_path ''aapl'' (Some ''out/aapl.json'')) \<noteq>
   files (ex_live_fs_after ''10:00:01'') (out_path ''aapl'' (Some ''out/aapl.json''))"
  using ex_live_run [OF ex_live_build(1)] ex_live_run [OF ex_live_build(2)]
  by (simp add: ex_paths ex_live_fs_after_def ex_live_history_def)

section \<open>The wrapper for AAPL\<close>

text \<open>
  C10. \<^verbatim>\<open>aggregate_for_aapl\<close> is \<^verbatim>\<open>aggregate_for_symbol\<close> at the symbol \<^verbatim>\<open>AAPL\<close>: the same file
  system afterwards and the same error, for all arguments.
\<close>

theorem aggregate_for_aapl_is_symbol_AAPL:
  "aggregate_for_aapl pd fs price_csv news_csv out_json =
     aggregate_for_symbol pd fs ''AAPL'' price_csv news_csv out_json"
  by (simp add: aggregate_for_aapl_def)

end
